theory Spec2Isabelle
  imports Main "HOL-Library.Word"
begin

section \<open>Python values: bytes, strings, JSON\<close>

text \<open>
  A Python \<open>bytes\<close> object is a list of 8-bit words. A Python \<open>str\<close> is a list of code
  points (natural numbers): it may hold any code point up to \<open>0x10FFFF\<close>, lone surrogates
  included, which is what decides whether \<open>str.encode()\<close> raises.
\<close>

type_synonym byte = "8 word"
type_synonym bytes = "byte list"
type_synonym pystr = "nat list"

definition lit :: "string \<Rightarrow> pystr" where
  \<comment> \<open>a string literal of the source\<close>
  "lit s = map of_char s"

definition byte_of :: "nat \<Rightarrow> byte" where
  \<comment> \<open>the byte with the given value; every use below is on a value under 256\<close>
  "byte_of n = of_nat n"

datatype exn =
    UnicodeEncodeError | UnicodeDecodeError | AttributeError | Binascii_Error | InvalidToken

text \<open>
  What \<open>json.loads\<close> returns. An object is kept as its list of items, read by key
  with \<open>get\<close>, which is \<open>dict.get\<close>: a missing key reads as \<open>None\<close>, as a JSON
  \<open>null\<close> does.
\<close>

datatype json =
    JNull | JBool bool | JInt int | JFloat int | JStr pystr
  | JArr "json list" | JObj "(pystr \<times> json) list"

definition get :: "(pystr \<times> json) list \<Rightarrow> pystr \<Rightarrow> json" where
  "get d k = (case map_of d k of None \<Rightarrow> JNull | Some v \<Rightarrow> v)"

subsection \<open>UTF-8, the codec of \<open>str.encode()\<close> and \<open>bytes.decode()\<close>\<close>

definition is_surrogate :: "nat \<Rightarrow> bool" where
  "is_surrogate cp = (55296 \<le> cp \<and> cp \<le> 57343)"

definition utf8_char :: "nat \<Rightarrow> bytes option" where
  "utf8_char cp =
     (if cp < 128 then Some [byte_of cp]
      else if cp < 2048 then Some [byte_of (192 + cp div 64), byte_of (128 + cp mod 64)]
      else if cp < 65536 then
        (if is_surrogate cp then None
         else Some [byte_of (224 + cp div 4096), byte_of (128 + cp div 64 mod 64),
                    byte_of (128 + cp mod 64)])
      else if cp < 1114112 then
        Some [byte_of (240 + cp div 262144), byte_of (128 + cp div 4096 mod 64),
              byte_of (128 + cp div 64 mod 64), byte_of (128 + cp mod 64)]
      else None)"

fun utf8_encode :: "pystr \<Rightarrow> bytes option" where
  "utf8_encode [] = Some []"
| "utf8_encode (cp # s) =
     (case utf8_char cp of
        None \<Rightarrow> None
      | Some bs \<Rightarrow> (case utf8_encode s of None \<Rightarrow> None | Some rest \<Rightarrow> Some (bs @ rest)))"

definition cont :: "byte \<Rightarrow> bool" where
  \<comment> \<open>a continuation byte \<open>10xxxxxx\<close>\<close>
  "cont b = (128 \<le> unat b \<and> unat b < 192)"

fun utf8_decode :: "bytes \<Rightarrow> pystr option" where
  "utf8_decode [] = Some []"
| "utf8_decode (b0 # bs) =
     (if unat b0 < 128 then
        (case utf8_decode bs of None \<Rightarrow> None | Some s \<Rightarrow> Some (unat b0 # s))
      else if 192 \<le> unat b0 \<and> unat b0 < 224 then
        (case bs of
           b1 # r \<Rightarrow>
             (let cp = (unat b0 - 192) * 64 + (unat b1 - 128)
              in if cont b1 \<and> 128 \<le> cp
                 then (case utf8_decode r of None \<Rightarrow> None | Some s \<Rightarrow> Some (cp # s))
                 else None)
         | _ \<Rightarrow> None)
      else if 224 \<le> unat b0 \<and> unat b0 < 240 then
        (case bs of
           b1 # b2 # r \<Rightarrow>
             (let cp = (unat b0 - 224) * 4096 + (unat b1 - 128) * 64 + (unat b2 - 128)
              in if cont b1 \<and> cont b2 \<and> 2048 \<le> cp \<and> \<not> is_surrogate cp
                 then (case utf8_decode r of None \<Rightarrow> None | Some s \<Rightarrow> Some (cp # s))
                 else None)
         | _ \<Rightarrow> None)
      else if 240 \<le> unat b0 \<and> unat b0 < 248 then
        (case bs of
           b1 # b2 # b3 # r \<Rightarrow>
             (let cp = (unat b0 - 240) * 262144 + (unat b1 - 128) * 4096
                       + (unat b2 - 128) * 64 + (unat b3 - 128)
              in if cont b1 \<and> cont b2 \<and> cont b3 \<and> 65536 \<le> cp \<and> cp < 1114112
                 then (case utf8_decode r of None \<Rightarrow> None | Some s \<Rightarrow> Some (cp # s))
                 else None)
         | _ \<Rightarrow> None)
      else None)"

subsection \<open>Base64, as \<open>base64.b64encode\<close>, \<open>b64decode\<close> and their URL-safe variants\<close>

text \<open>
  \<open>b64_char\<close> is the encoding table of \<open>binascii\<close>, \<open>b64_index\<close> its decoding table
  (\<open>None\<close> for a byte outside the alphabet). Byte 61 is the pad character \<open>=\<close>.
\<close>

definition b64_char :: "nat \<Rightarrow> byte" where
  "b64_char i =
     (if i < 26 then byte_of (65 + i)
      else if i < 52 then byte_of (71 + i)
      else if i < 62 then byte_of (i - 4)
      else if i = 62 then 43 else 47)"

definition b64_index :: "byte \<Rightarrow> nat option" where
  "b64_index c =
     (let n = unat c
      in if 65 \<le> n \<and> n \<le> 90 then Some (n - 65)
         else if 97 \<le> n \<and> n \<le> 122 then Some (n - 71)
         else if 48 \<le> n \<and> n \<le> 57 then Some (n + 4)
         else if n = 43 then Some 62
         else if n = 47 then Some 63
         else None)"

fun b2a_base64 :: "bytes \<Rightarrow> bytes" where
  "b2a_base64 [] = []"
| "b2a_base64 [a] =
     [b64_char (unat a div 4), b64_char (unat a mod 4 * 16), 61, 61]"
| "b2a_base64 [a, b] =
     [b64_char (unat a div 4), b64_char (unat a mod 4 * 16 + unat b div 16),
      b64_char (unat b mod 16 * 4), 61]"
| "b2a_base64 (a # b # c # rest) =
     [b64_char (unat a div 4), b64_char (unat a mod 4 * 16 + unat b div 16),
      b64_char (unat b mod 16 * 4 + unat c div 64), b64_char (unat c mod 64)]
     @ b2a_base64 rest"

text \<open>
  \<open>binascii.a2b_base64\<close> in its default, non-strict mode, which is what \<open>b64decode\<close>
  calls: a byte outside the alphabet is skipped, a pad that cannot end the data is
  skipped, a pad that completes a quad ends the decoding (what follows is ignored), and
  input that ends inside a quad is an error. The arguments are the position in the quad,
  the bits left over from the previous character, the pads seen, and the output so far.
\<close>

fun a2b_base64 :: "nat \<Rightarrow> nat \<Rightarrow> nat \<Rightarrow> bytes \<Rightarrow> bytes \<Rightarrow> bytes option" where
  "a2b_base64 quad_pos leftchar pads out [] = (if quad_pos \<noteq> 0 then None else Some out)"
| "a2b_base64 quad_pos leftchar pads out (c # cs) =
     (if c = 61 then
        (if 2 \<le> quad_pos \<and> 4 \<le> quad_pos + (pads + 1) then Some out
         else a2b_base64 quad_pos leftchar (if 2 \<le> quad_pos then pads + 1 else pads) out cs)
      else
        (case b64_index c of
           None \<Rightarrow> a2b_base64 quad_pos leftchar pads out cs
         | Some v \<Rightarrow>
             (if quad_pos = 0 then a2b_base64 1 v 0 out cs
              else if quad_pos = 1 then
                a2b_base64 2 (v mod 16) 0 (out @ [byte_of (leftchar * 4 + v div 16)]) cs
              else if quad_pos = 2 then
                a2b_base64 3 (v mod 4) 0 (out @ [byte_of (leftchar * 16 + v div 4)]) cs
              else a2b_base64 0 0 0 (out @ [byte_of (leftchar * 64 + v)]) cs)))"

definition b64encode :: "bytes \<Rightarrow> bytes" where
  "b64encode s = b2a_base64 s"

definition b64decode :: "bytes \<Rightarrow> bytes option" where
  "b64decode s = a2b_base64 0 0 0 [] s"

definition urlsafe_encode_translation :: "byte \<Rightarrow> byte" where
  "urlsafe_encode_translation c = (if c = 43 then 45 else if c = 47 then 95 else c)"

definition urlsafe_decode_translation :: "byte \<Rightarrow> byte" where
  "urlsafe_decode_translation c = (if c = 45 then 43 else if c = 95 then 47 else c)"

definition urlsafe_b64encode :: "bytes \<Rightarrow> bytes" where
  "urlsafe_b64encode s = map urlsafe_encode_translation (b64encode s)"

definition urlsafe_b64decode :: "bytes \<Rightarrow> bytes option" where
  "urlsafe_b64decode s = b64decode (map urlsafe_decode_translation s)"

section \<open>CryptoManager\<close>

text \<open>
  \<open>Fernet\<close> belongs to the \<open>cryptography\<close> package, not to this repository. Its token
  is the URL-safe base64 text of a frame (version byte, timestamp, IV, AES-CBC ciphertext,
  HMAC tag), and \<open>Fernet.decrypt\<close> begins by decoding the token with
  \<open>base64.urlsafe_b64decode\<close>. That framing is modelled; building a frame (\<open>seal\<close>,
  from the clock reading and the random IV that \<open>Fernet.encrypt\<close> draws) and checking
  and opening one (\<open>unseal\<close>, \<open>None\<close> for \<open>InvalidToken\<close>) are parameters.
\<close>

type_synonym entropy = "nat \<times> bytes"

record fernet =
  seal :: "entropy \<Rightarrow> bytes \<Rightarrow> bytes"
  unseal :: "bytes \<Rightarrow> bytes option"

definition Fernet_encrypt :: "fernet \<Rightarrow> entropy \<Rightarrow> bytes \<Rightarrow> bytes" where
  "Fernet_encrypt F r data = urlsafe_b64encode (seal F r data)"

definition Fernet_decrypt :: "fernet \<Rightarrow> bytes \<Rightarrow> bytes option" where
  "Fernet_decrypt F token =
     (case urlsafe_b64decode token of None \<Rightarrow> None | Some data \<Rightarrow> unseal F data)"

definition fernet_sound :: "fernet \<Rightarrow> bool" where
  \<comment> \<open>the library's contract: a frame it built opens to the data it was built from\<close>
  "fernet_sound F = (\<forall>r data. unseal F (seal F r data) = Some data)"

record CryptoManager =
  password :: bytes
  salt :: bytes
  key :: bytes
  cipher :: fernet

text \<open>
  \<open>CryptoManager.__init__\<close> and \<open>_derive_key\<close>: the 16 bytes of \<open>os.urandom\<close>, PBKDF2
  and the \<open>Fernet\<close> constructor are given from outside.
\<close>

definition CryptoManager_init ::
  "(bytes \<Rightarrow> bytes \<Rightarrow> bytes) \<Rightarrow> (bytes \<Rightarrow> fernet) \<Rightarrow> bytes \<Rightarrow> pystr \<Rightarrow> exn + CryptoManager" where
  "CryptoManager_init pbkdf2 Fernet urandom16 pw =
     (case utf8_encode pw of
        None \<Rightarrow> Inl UnicodeEncodeError
      | Some p \<Rightarrow>
          (let k = urlsafe_b64encode (pbkdf2 urandom16 p)
           in Inr \<lparr>password = p, salt = urandom16, key = k, cipher = Fernet k\<rparr>))"

text \<open>
  \<open>encrypt\<close> has no handler: \<open>message.encode()\<close> raises on a string that UTF-8 cannot
  encode. \<open>decrypt\<close> catches every exception of its body (\<open>decrypt_try\<close>), logs, and
  returns the sentinel text; its argument is whatever the packet held under
  \<open>message\<close>, so any JSON value.
\<close>

definition encrypt :: "CryptoManager \<Rightarrow> entropy \<Rightarrow> pystr \<Rightarrow> exn + pystr" where
  "encrypt cm r msg =
     (case utf8_encode msg of
        None \<Rightarrow> Inl UnicodeEncodeError
      | Some data \<Rightarrow>
          (case utf8_decode (urlsafe_b64encode (Fernet_encrypt (cipher cm) r data)) of
             None \<Rightarrow> Inl UnicodeDecodeError
           | Some s \<Rightarrow> Inr s))"

definition decrypt_try :: "CryptoManager \<Rightarrow> json \<Rightarrow> exn + pystr" where
  "decrypt_try cm encrypted_message =
     (case encrypted_message of
        JStr s \<Rightarrow>
          (case utf8_encode s of
             None \<Rightarrow> Inl UnicodeEncodeError
           | Some b \<Rightarrow>
               (case urlsafe_b64decode b of
                  None \<Rightarrow> Inl Binascii_Error
                | Some encrypted_data \<Rightarrow>
                    (case Fernet_decrypt (cipher cm) encrypted_data of
                       None \<Rightarrow> Inl InvalidToken
                     | Some decrypted \<Rightarrow>
                         (case utf8_decode decrypted of
                            None \<Rightarrow> Inl UnicodeDecodeError
                          | Some t \<Rightarrow> Inr t))))
      | _ \<Rightarrow> Inl AttributeError)"

datatype effect =
    Log_info string
  | Log_error string
  | Sendto "pystr \<times> int" json
  | Message_callback json pystr pystr
  | Call_callback pystr json
  | Peer_callback
  | Record_thread
  | Play_thread bytes

definition decrypt :: "CryptoManager \<Rightarrow> json \<Rightarrow> pystr \<times> effect list" where
  "decrypt cm encrypted_message =
     (case decrypt_try cm encrypted_message of
        Inr t \<Rightarrow> (t, [])
      | Inl e \<Rightarrow> (lit ''[DECRYPTION FAILED]'', [Log_error ''Decryption failed'']))"

section \<open>AudioManager\<close>

text \<open>
  \<open>has_audio\<close> says whether \<open>pyaudio\<close> could be imported. The recording and playback
  threads are outside the model; starting one is an effect.
\<close>

record AudioManager =
  has_audio :: bool
  recording :: bool
  playing :: bool

definition start_recording :: "AudioManager \<Rightarrow> AudioManager \<times> effect list" where
  "start_recording a =
     (if \<not> has_audio a then (a, []) else (a\<lparr>recording := True\<rparr>, [Record_thread]))"

definition stop_recording :: "AudioManager \<Rightarrow> AudioManager" where
  "stop_recording a = a\<lparr>recording := False\<rparr>"

definition play_audio :: "AudioManager \<Rightarrow> bytes \<Rightarrow> effect list" where
  "play_audio a audio_data = (if \<not> has_audio a then [] else [Play_thread audio_data])"

section \<open>P2PNode\<close>

text \<open>
  The node's fields. A callback field says whether a callback is registered; calling
  it is an effect, and the callback itself (the window's code) is outside the model
  and taken to return normally. \<open>call_partner\<close> is \<open>None\<close> or a string.
\<close>

record P2PNode =
  username :: pystr
  crypto :: CryptoManager
  audio :: AudioManager
  port :: int
  peers :: "pystr \<rightharpoonup> pystr \<times> int"
  active_connections :: "pystr \<rightharpoonup> bool"
  in_call :: bool
  call_partner :: "pystr option"
  message_callback :: bool
  call_callback :: bool
  peer_callback :: bool
  running :: bool

text \<open>
  What one call of \<open>send_message\<close> reads from outside the node: the clock
  (\<open>datetime.now().isoformat()\<close>), what \<open>Fernet.encrypt\<close> draws, and whether
  \<open>socket.sendto\<close> returns (\<open>True\<close>) or raises.
\<close>

record env =
  now :: pystr
  drawn :: entropy
  sendto_ok :: bool

definition add_peer :: "P2PNode \<Rightarrow> pystr \<Rightarrow> pystr \<Rightarrow> int \<Rightarrow> P2PNode \<times> effect list" where
  "add_peer n name ip pt =
     (n\<lparr>peers := (peers n)(name \<mapsto> (ip, pt)),
        active_connections := (active_connections n)(name \<mapsto> True)\<rparr>,
      Log_info ''Added peer'' # (if peer_callback n then [Peer_callback] else []))"

definition remove_peer :: "P2PNode \<Rightarrow> pystr \<Rightarrow> P2PNode \<times> effect list" where
  "remove_peer n name =
     (if name \<in> dom (peers n) then
        (n\<lparr>peers := (peers n)(name := None),
           active_connections := (active_connections n)(name := None)\<rparr>,
         Log_info ''Removed peer'' # (if peer_callback n then [Peer_callback] else []))
      else (n, []))"

text \<open>
  \<open>send_message\<close> changes no field of the node. Its result is \<open>Inl\<close> when
  \<open>encrypt\<close> raises (it is called outside the \<open>try\<close>), else the flag returned.
\<close>

definition send_message ::
  "env \<Rightarrow> P2PNode \<Rightarrow> pystr \<Rightarrow> pystr \<Rightarrow> pystr \<Rightarrow> (exn + bool) \<times> effect list" where
  "send_message e n recipient msg msg_type =
     (case peers n recipient of
        None \<Rightarrow> (Inr False, [Log_error ''Peer not found''])
      | Some addr \<Rightarrow>
          (case encrypt (crypto n) (drawn e) msg of
             Inl x \<Rightarrow> (Inl x, [])
           | Inr encrypted_msg \<Rightarrow>
               (let packet = JObj
                      [(lit ''type'', JStr msg_type),
                       (lit ''sender'', JStr (username n)),
                       (lit ''recipient'', JStr recipient),
                       (lit ''message'', JStr encrypted_msg),
                       (lit ''timestamp'', JStr (now e))]
                in if sendto_ok e
                   then (Inr True, [Sendto addr packet, Log_info ''Sent message''])
                   else (Inr False, [Log_error ''Failed to send message'']))))"

definition start_call ::
  "env \<Rightarrow> P2PNode \<Rightarrow> pystr \<Rightarrow> (exn + bool) \<times> P2PNode \<times> effect list" where
  "start_call e n recipient =
     (if in_call n then (Inr False, n, [])
      else
        (case send_message e n recipient (lit ''call_request'') (lit ''call'') of
           (Inl x, fx) \<Rightarrow> (Inl x, n, fx)
         | (Inr success, fx) \<Rightarrow>
             (if success
              then (Inr True, n\<lparr>call_partner := Some recipient\<rparr>,
                    fx @ [Log_info ''Call request sent''])
              else (Inr False, n, fx))))"

definition accept_call ::
  "env \<Rightarrow> P2PNode \<Rightarrow> pystr \<Rightarrow> (exn + bool) \<times> P2PNode \<times> effect list" where
  "accept_call e n caller =
     (if in_call n then (Inr False, n, [])
      else
        (let n1 = n\<lparr>in_call := True, call_partner := Some caller\<rparr>
         in case send_message e n1 caller (lit ''call_accepted'') (lit ''call'') of
              (Inl x, fx) \<Rightarrow> (Inl x, n1, fx)
            | (Inr _, fx) \<Rightarrow>
                (case start_recording (audio n1) of
                   (a, fx2) \<Rightarrow>
                     (Inr True, n1\<lparr>audio := a\<rparr>, fx @ fx2 @ [Log_info ''Call accepted'']))))"

definition truthy :: "pystr option \<Rightarrow> bool" where
  \<comment> \<open>\<open>if self.call_partner:\<close> holds for a non-empty string\<close>
  "truthy p = (case p of None \<Rightarrow> False | Some s \<Rightarrow> s \<noteq> [])"

definition end_call :: "env \<Rightarrow> P2PNode \<Rightarrow> (exn + unit) \<times> P2PNode \<times> effect list" where
  "end_call e n =
     (if \<not> in_call n then (Inr (), n, [])
      else
        (case (case call_partner n of
                 Some p \<Rightarrow>
                   (if p \<noteq> [] then send_message e n p (lit ''call_ended'') (lit ''call'')
                    else (Inr False, []))
               | None \<Rightarrow> (Inr False, [])) of
           (Inl x, fx) \<Rightarrow> (Inl x, n, fx)
         | (Inr _, fx) \<Rightarrow>
             (Inr (),
              n\<lparr>in_call := False, call_partner := None, audio := stop_recording (audio n)\<rparr>,
              fx @ [Log_info ''Call ended''])))"

text \<open>\<open>_send_audio\<close>, the callback the recording thread calls with each chunk.\<close>

definition send_audio :: "env \<Rightarrow> P2PNode \<Rightarrow> bytes \<Rightarrow> (exn + unit) \<times> effect list" where
  "send_audio e n audio_data =
     (if in_call n \<and> truthy (call_partner n) then
        (case call_partner n of
           None \<Rightarrow> (Inr (), [])
         | Some p \<Rightarrow>
             (case utf8_decode (b64encode audio_data) of
                None \<Rightarrow> (Inl UnicodeDecodeError, [])
              | Some audio_b64 \<Rightarrow>
                  (case send_message e n p audio_b64 (lit ''audio'') of
                     (Inl x, fx) \<Rightarrow> (Inl x, fx)
                   | (Inr _, fx) \<Rightarrow> (Inr (), fx))))
      else (Inr (), []))"

definition share_link ::
  "env \<Rightarrow> P2PNode \<Rightarrow> pystr \<Rightarrow> pystr \<Rightarrow> (exn + bool) \<times> effect list" where
  "share_link e n recipient url = send_message e n recipient url (lit ''link'')"

text \<open>
  \<open>sender == self.call_partner\<close>, between a JSON value and \<open>None\<close> or a string.
\<close>

definition eq_partner :: "json \<Rightarrow> pystr option \<Rightarrow> bool" where
  "eq_partner v p = (case p of None \<Rightarrow> v = JNull | Some s \<Rightarrow> v = JStr s)"

text \<open>
  \<open>_handle_packet\<close>. \<open>packet.get\<close> raises \<open>AttributeError\<close> on a JSON value that is
  not an object; on an object nothing raises: \<open>decrypt\<close> catches its own exceptions
  and the audio branch has its own handler.
\<close>

definition call_event :: "P2PNode \<Rightarrow> string \<Rightarrow> json \<Rightarrow> effect list" where
  "call_event n kind sender = (if call_callback n then [Call_callback (lit kind) sender] else [])"

definition handle_packet :: "P2PNode \<Rightarrow> json \<Rightarrow> exn + P2PNode \<times> effect list" where
  "handle_packet n packet =
     (case packet of
        JObj d \<Rightarrow>
          (let msg_type = get d (lit ''type'');
               sender = get d (lit ''sender'');
               msg = get d (lit ''message'')
           in Inr
             (if msg_type = JStr (lit ''text'') then
                (case decrypt (crypto n) msg of
                   (decrypted_msg, lg) \<Rightarrow>
                     (n, lg @ (if message_callback n
                               then [Message_callback sender decrypted_msg (lit ''received'')]
                               else [])))
              else if msg_type = JStr (lit ''call'') then
                (if msg = JStr (lit ''call_request'') then
                   (n, call_event n ''incoming'' sender)
                 else if msg = JStr (lit ''call_accepted'') then
                   (case start_recording (audio n) of
                      (a, fx) \<Rightarrow>
                        (n\<lparr>in_call := True, audio := a\<rparr>, fx @ call_event n ''accepted'' sender))
                 else if msg = JStr (lit ''call_ended'') then
                   (n\<lparr>in_call := False, call_partner := None,
                      audio := stop_recording (audio n)\<rparr>,
                    call_event n ''ended'' sender)
                 else (n, []))
              else if msg_type = JStr (lit ''audio'') then
                (if in_call n \<and> eq_partner sender (call_partner n) then
                   (case msg of
                      JStr m \<Rightarrow>
                        (case utf8_encode m of
                           None \<Rightarrow> (n, [Log_error ''Error playing audio''])
                         | Some b \<Rightarrow>
                             (case b64decode b of
                                None \<Rightarrow> (n, [Log_error ''Error playing audio''])
                              | Some audio_data \<Rightarrow> (n, play_audio (audio n) audio_data)))
                    | _ \<Rightarrow> (n, [Log_error ''Error playing audio'']))
                 else (n, []))
              else if msg_type = JStr (lit ''link'') then
                (case decrypt (crypto n) msg of
                   (decrypted_link, lg) \<Rightarrow>
                     (n, lg @ (if message_callback n
                               then [Message_callback sender
                                       (lit ''Shared link: '' @ decrypted_link) (lit ''link'')]
                               else [])))
              else (n, [])))
      | _ \<Rightarrow> Inl AttributeError)"




section \<open>Observations\<close>

text \<open>
  What the statements below read off a run: the packets handed to \<open>socket.sendto\<close>,
  a field of a packet, and the two fields that hold the state of the call.
\<close>

fun sent :: "effect list \<Rightarrow> json list" where
  "sent [] = []"
| "sent (Sendto a p # fx) = p # sent fx"
| "sent (x # fx) = sent fx"

definition field :: "json \<Rightarrow> string \<Rightarrow> json" where
  "field p k = (case p of JObj d \<Rightarrow> get d (lit k) | _ \<Rightarrow> JNull)"

definition call_state :: "P2PNode \<Rightarrow> bool \<times> pystr option" where
  "call_state n = (in_call n, call_partner n)"

text \<open>
  The frame that \<open>decrypt\<close> brings before the cipher's check for a given text: the text
  encoded, base64-decoded by \<open>decrypt\<close>, and base64-decoded again inside
  \<open>Fernet.decrypt\<close>. \<open>authenticates F c f0\<close> is the guarantee expected of the
  library's HMAC check, for one ciphertext \<open>c\<close>: of the frames that a change of one
  character of \<open>c\<close> can bring before it, the cipher opens none but the original \<open>f0\<close>.
\<close>

definition frame_of :: "pystr \<Rightarrow> bytes option" where
  "frame_of s =
     (case utf8_encode s of
        None \<Rightarrow> None
      | Some b \<Rightarrow>
          (case urlsafe_b64decode b of None \<Rightarrow> None | Some token \<Rightarrow> urlsafe_b64decode token))"

definition authenticates :: "fernet \<Rightarrow> pystr \<Rightarrow> bytes \<Rightarrow> bool" where
  "authenticates F c f0 =
     (\<forall>i x f. i < length c \<and> frame_of (c[i := x]) = Some f \<and> f \<noteq> f0 \<longrightarrow> unseal F f = None)"

text \<open>
  The code points that base64 decoding reads, in the standard or the URL-safe alphabet:
  letters, digits, \<open>+\<close>, \<open>/\<close>, \<open>-\<close>, \<open>_\<close>, and the pad \<open>=\<close>.
\<close>

definition base64_character :: "nat \<Rightarrow> bool" where
  "base64_character x =
     ((65 \<le> x \<and> x \<le> 90) \<or> (97 \<le> x \<and> x \<le> 122) \<or> (48 \<le> x \<and> x \<le> 57)
      \<or> x = 43 \<or> x = 47 \<or> x = 45 \<or> x = 95 \<or> x = 61)"

section \<open>Concrete instances\<close>

text \<open>
  A stand-in for the library cipher, for running the model on concrete inputs: it has
  Fernet's frame layout (version byte \<open>0x80\<close>, eight timestamp bytes, sixteen IV bytes,
  the data padded to a multiple of sixteen bytes, thirty-two tag bytes) and keeps the
  library's contract \<open>fernet_sound\<close>; it does not encrypt.
\<close>

definition pkcs7 :: "bytes \<Rightarrow> bytes" where
  "pkcs7 data = data @ replicate (16 - length data mod 16) (byte_of (16 - length data mod 16))"

definition demo_seal :: "entropy \<Rightarrow> bytes \<Rightarrow> bytes" where
  "demo_seal r data =
     128 # replicate 7 0 @ [byte_of (fst r mod 256)] @ take 16 (snd r @ replicate 16 0)
     @ pkcs7 data @ replicate 32 0"

definition demo_unseal :: "bytes \<Rightarrow> bytes option" where
  "demo_unseal f =
     (if length f < 73 \<or> take 1 f \<noteq> [128] \<or> drop (length f - 32) f \<noteq> replicate 32 0
      then None
      else
        (let body = take (length f - 57) (drop 25 f);
             k = unat (last body)
         in if k = 0 \<or> 16 < k \<or> length body < k then None
            else Some (take (length body - k) body)))"

definition demo_fernet :: fernet where
  "demo_fernet = \<lparr>seal = demo_seal, unseal = demo_unseal\<rparr>"

definition demo_crypto :: CryptoManager where
  "demo_crypto =
     \<lparr>password = [112, 119], salt = replicate 16 0,
      key = urlsafe_b64encode (replicate 32 0), cipher = demo_fernet\<rparr>"

definition demo_env :: env where
  "demo_env = \<lparr>now = lit ''2024-01-01T00:00:00'', drawn = (0, replicate 16 0), sendto_ok = True\<rparr>"

definition alice :: P2PNode where
  "alice =
     \<lparr>username = lit ''alice'', crypto = demo_crypto,
      audio = \<lparr>has_audio = True, recording = False, playing = False\<rparr>,
      port = 5000,
      peers = [lit ''bob'' \<mapsto> (lit ''localhost'', 5001), lit ''carol'' \<mapsto> (lit ''localhost'', 5002)],
      active_connections = [lit ''bob'' \<mapsto> True, lit ''carol'' \<mapsto> True],
      in_call = False, call_partner = None,
      message_callback = True, call_callback = True, peer_callback = True,
      running = True\<rparr>"

definition bob :: P2PNode where
  "bob =
     \<lparr>username = lit ''bob'', crypto = demo_crypto,
      audio = \<lparr>has_audio = True, recording = False, playing = False\<rparr>,
      port = 5001,
      peers = [lit ''alice'' \<mapsto> (lit ''localhost'', 5000)],
      active_connections = [lit ''alice'' \<mapsto> True],
      in_call = False, call_partner = None,
      message_callback = True, call_callback = True, peer_callback = True,
      running = True\<rparr>"

text \<open>Alice with a call to Bob requested and not yet answered, and in a call with Bob.\<close>

definition alice_ringing :: P2PNode where
  "alice_ringing = alice\<lparr>call_partner := Some (lit ''bob'')\<rparr>"

definition alice_talking :: P2PNode where
  "alice_talking = alice\<lparr>in_call := True, call_partner := Some (lit ''bob'')\<rparr>"

text \<open>The ciphertext of \<open>hi\<close> under the stand-in cipher.\<close>

definition demo_ciphertext :: pystr where
  "demo_ciphertext =
     (case encrypt demo_crypto (drawn demo_env) (lit ''hi'') of Inr c \<Rightarrow> c | Inl x \<Rightarrow> [])"

text \<open>
  A cipher that has built one frame, the one of \<open>hi\<close>, and opens no other.
\<close>

definition lone_fernet :: fernet where
  "lone_fernet =
     \<lparr>seal = demo_seal,
      unseal = (\<lambda>f. if f = demo_seal (drawn demo_env) [104, 105] then Some [104, 105] else None)\<rparr>"

definition lone_crypto :: CryptoManager where
  "lone_crypto = demo_crypto\<lparr>cipher := lone_fernet\<rparr>"

section \<open>Facts about the codecs\<close>

subsection \<open>Base64\<close>

lemma unat_byte_lt: "unat (b::byte) < 256"
  using unsigned_less [of b, where 'a=nat] by simp

lemma unat_byte_of: "n < 256 \<Longrightarrow> unat (byte_of n) = n"
  by (simp add: byte_of_def unat_of_nat)

lemma byte_of_unat: "byte_of (unat b) = b"
  by (simp add: byte_of_def)

lemma byte_eqI: "n = unat b \<Longrightarrow> byte_of n = b"
  by (simp add: byte_of_def)

lemma b64_char_unat:
  "i < 64 \<Longrightarrow> unat (b64_char i) =
     (if i < 26 then 65 + i else if i < 52 then 71 + i else if i < 62 then i - 4
      else if i = 62 then 43 else 47)"
  by (simp add: b64_char_def unat_byte_of)

lemma b64_index_char: "i < 64 \<Longrightarrow> b64_index (b64_char i) = Some i"
  by (auto simp add: b64_index_def b64_char_unat Let_def)

lemma b64_char_not_pad: "i < 64 \<Longrightarrow> b64_char i \<noteq> 61"
proof
  assume a: "i < 64" and "b64_char i = 61"
  then have "unat (b64_char i) = 61" by simp
  with a show False by (simp add: b64_char_unat split: if_splits)
qed

lemma b64_char_lt128: "unat (b64_char i) < 128"
  by (auto simp add: b64_char_def unat_byte_of)

lemma d16: "b < 256 \<Longrightarrow> b div 16 < (16::nat)"
  by (rule less_mult_imp_div_less) simp
lemma d64: "c < 256 \<Longrightarrow> c div 64 < (4::nat)"
  by (rule less_mult_imp_div_less) simp
lemma nat_join1: "b < 256 \<Longrightarrow> a div 4 * 4 + (a mod 4 * 16 + b div 16) div 16 = (a::nat)"
  using d16 [of b] by simp
lemma nat_join2: "b < 256 \<Longrightarrow> c < 256 \<Longrightarrow>
   (a mod 4 * 16 + b div 16) mod 16 * 16 + (b mod 16 * 4 + c div 64) div 4 = (b::nat)"
  using d16 [of b] d64 [of c] by simp
lemma nat_join3: "c < 256 \<Longrightarrow> (b mod 16 * 4 + c div 64) mod 4 * 64 + c mod 64 = (c::nat)"
  using d64 [of c] by simp

lemma join1: "byte_of (unat (a::byte) div 4 * 4 + (unat a mod 4 * 16 + unat (b::byte) div 16) div 16) = a"
  by (rule byte_eqI) (rule nat_join1 [OF unat_byte_lt])

lemma join1': "byte_of (unat (a::byte) div 4 * 4 + (unat a mod 4 * 16) div 16) = a"
  using join1 [of a 0] by simp

lemma join2: "byte_of ((unat (a::byte) mod 4 * 16 + unat (b::byte) div 16) mod 16 * 16
   + (unat b mod 16 * 4 + unat (c::byte) div 64) div 4) = b"
  by (rule byte_eqI) (rule nat_join2 [OF unat_byte_lt unat_byte_lt])

lemma join2': "byte_of ((unat (a::byte) mod 4 * 16 + unat (b::byte) div 16) mod 16 * 16
   + (unat b mod 16 * 4) div 4) = b"
  using join2 [of a b 0] by simp

lemma join3: "byte_of ((unat (b::byte) mod 16 * 4 + unat (c::byte) div 64) mod 4 * 64 + unat c mod 64) = c"
  by (rule byte_eqI) (rule nat_join3 [OF unat_byte_lt])

lemma idx_bounds:
  "unat (a::byte) div 4 < 64" "unat a mod 4 * 16 + unat (b::byte) div 16 < 64"
  "unat b mod 16 * 4 + unat (c::byte) div 64 < 64" "unat c mod 64 < 64"
  "unat a mod 4 * 16 < 64" "unat b mod 16 * 4 < 64"
  using unat_byte_lt [of a] unat_byte_lt [of b] unat_byte_lt [of c] by simp_all

lemma a2b_data:
  "i < 64 \<Longrightarrow> a2b_base64 qp lc p out (b64_char i # cs) =
     (if qp = 0 then a2b_base64 1 i 0 out cs
      else if qp = 1 then a2b_base64 2 (i mod 16) 0 (out @ [byte_of (lc * 4 + i div 16)]) cs
      else if qp = 2 then a2b_base64 3 (i mod 4) 0 (out @ [byte_of (lc * 16 + i div 4)]) cs
      else a2b_base64 0 0 0 (out @ [byte_of (lc * 64 + i)]) cs)"
  by (simp add: b64_index_char b64_char_not_pad)

lemma a2b_quad:
  "a2b_base64 0 lc p out
     (b64_char (unat a div 4) # b64_char (unat a mod 4 * 16 + unat b div 16) #
      b64_char (unat b mod 16 * 4 + unat c div 64) # b64_char (unat c mod 64) # cs)
   = a2b_base64 0 0 0 (out @ [a, b, c]) cs"
  by (simp only: a2b_data idx_bounds join1 join2 join3 if_True if_False append_assoc append.simps One_nat_def[symmetric] simp_thms) simp

lemma a2b_b2a: "a2b_base64 0 lc p out (b2a_base64 xs) = Some (out @ xs)"
proof (induction xs arbitrary: lc p out rule: b2a_base64.induct)
  case 1
  then show ?case by simp
next
  case (2 a)
  have "a2b_base64 0 lc p out (b2a_base64 [a]) = a2b_base64 2 ((unat a mod 4 * 16) mod 16) 0 (out @ [a]) [61, 61]"
    by (simp add: a2b_data idx_bounds join1' byte_of_unat del: a2b_base64.simps)
  then show ?case by simp
next
  case (3 a b)
  have "a2b_base64 0 lc p out (b2a_base64 [a, b]) = a2b_base64 3 ((unat b mod 16 * 4) mod 4) 0 (out @ [a, b]) [61]"
    by (simp only: b2a_base64.simps a2b_data idx_bounds join1 join2') simp
  then show ?case by simp
next
  case (4 a b c rest)
  show ?case by (simp add: a2b_quad "4.IH" del: a2b_base64.simps)
qed

lemma b2a_lt128: "x \<in> set (b2a_base64 xs) \<Longrightarrow> unat x < 128"
  by (induction xs rule: b2a_base64.induct) (auto simp: b64_char_lt128)

lemma length_b2a: "length (b2a_base64 xs) mod 4 = 0"
  by (induction xs rule: b2a_base64.induct) auto

lemma b64_char_ne: "b64_char i \<noteq> 45" "b64_char i \<noteq> 95"
proof -
  have "unat (b64_char i) \<noteq> 45 \<and> unat (b64_char i) \<noteq> 95"
    by (auto simp add: b64_char_def unat_byte_of)
  then show "b64_char i \<noteq> 45" "b64_char i \<noteq> 95" by auto
qed

lemma b2a_no_urlsafe: "x \<in> set (b2a_base64 xs) \<Longrightarrow> x \<noteq> 45 \<and> x \<noteq> 95"
  by (induction xs rule: b2a_base64.induct) (auto simp: b64_char_ne)

lemma urlsafe_roundtrip: "urlsafe_b64decode (urlsafe_b64encode xs) = Some xs"
proof -
  have "map urlsafe_decode_translation (map urlsafe_encode_translation (b2a_base64 xs)) = b2a_base64 xs"
    using b2a_no_urlsafe [of _ xs]
    by (simp add: map_idI urlsafe_decode_translation_def urlsafe_encode_translation_def)
  then show ?thesis
    by (simp add: urlsafe_b64decode_def urlsafe_b64encode_def b64decode_def b64encode_def a2b_b2a)
qed

lemma b64_roundtrip: "b64decode (b64encode xs) = Some xs"
  by (simp add: b64decode_def b64encode_def a2b_b2a)

lemma urlsafe_lt128: "x \<in> set (urlsafe_b64encode xs) \<Longrightarrow> unat x < 128"
  by (auto simp: urlsafe_b64encode_def b64encode_def urlsafe_encode_translation_def dest: b2a_lt128)

lemma length_urlsafe: "length (urlsafe_b64encode xs) mod 4 = 0"
  by (simp add: urlsafe_b64encode_def b64encode_def length_b2a)

subsection \<open>UTF-8\<close>

lemma utf8_decode_ascii: "\<forall>b\<in>set bs. unat b < 128 \<Longrightarrow> utf8_decode bs = Some (map unat bs)"
  by (induction bs) auto

lemma utf8_encode_ascii: "\<forall>b\<in>set bs. unat b < 128 \<Longrightarrow> utf8_encode (map unat bs) = Some bs"
  by (induction bs) (auto simp: utf8_char_def byte_of_unat)

lemma utf8_encode_lit_ascii: "\<forall>c\<in>set s. c < 128 \<Longrightarrow> utf8_encode s = Some (map byte_of s)"
  by (induction s) (auto simp: utf8_char_def)

lemma regroup: "q * 4096 + r * 64 = (q * 64 + r) * (64::nat)"
  by simp

lemma split64: "n div 4096 * 4096 + n div 64 mod 64 * 64 + n mod 64 = (n::nat)"
proof -
  define x where "x = n div 64"
  have a: "n div 4096 = x div 64" by (simp add: x_def div_mult2_eq [symmetric])
  have "n div 4096 * 4096 + n div 64 mod 64 * 64 = (x div 64 * 64 + x mod 64) * 64"
    unfolding a x_def [symmetric] by (rule regroup)
  also have "\<dots> = x * 64" by simp
  finally show ?thesis by (simp add: x_def)
qed

lemma split64': "n div 262144 * 262144 + n div 4096 mod 64 * 4096 + n div 64 mod 64 * 64 + n mod 64 = (n::nat)"
proof -
  define y where "y = n div 4096"
  have a: "n div 262144 = y div 64" by (simp add: y_def div_mult2_eq [symmetric])
  have g: "\<And>q r. q * 262144 + r * 4096 = (q * 64 + r) * (4096::nat)" by simp
  have "n div 262144 * 262144 + n div 4096 mod 64 * 4096 = (y div 64 * 64 + y mod 64) * 4096"
    unfolding a y_def [symmetric] by (rule g)
  also have "\<dots> = n div 4096 * 4096" by (simp add: y_def)
  finally have "n div 262144 * 262144 + n div 4096 mod 64 * 4096 + n div 64 mod 64 * 64 + n mod 64
     = n div 4096 * 4096 + n div 64 mod 64 * 64 + n mod 64" by simp
  then show ?thesis by (simp only: split64)
qed

lemma utf8_char_decode:
  assumes "utf8_char cp = Some cs"
  shows "utf8_decode (cs @ rest) = (case utf8_decode rest of None \<Rightarrow> None | Some s \<Rightarrow> Some (cp # s))"
proof -
  consider (a) "cp < 128" | (b) "128 \<le> cp" "cp < 2048" | (c) "2048 \<le> cp" "cp < 65536" "\<not> is_surrogate cp"
    | (d) "65536 \<le> cp" "cp < 1114112"
    using assms by (auto simp: utf8_char_def split: if_splits)
  then show ?thesis
  proof cases
    case a
    have u: "unat (byte_of cp) = cp" using a by (simp add: unat_byte_of)
    with assms a show ?thesis by (auto simp: utf8_char_def split: option.splits)
  next
    case b
    have d: "cp div 64 < 32" using b by (intro less_mult_imp_div_less) simp
    have d2: "2 \<le> cp div 64" using b by (simp add: less_eq_div_iff_mult_less_eq)
    have cs: "cs = [byte_of (192 + cp div 64), byte_of (128 + cp mod 64)]"
      using assms b by (auto simp: utf8_char_def)
    have u0: "unat (byte_of (192 + cp div 64)) = 192 + cp div 64" using d by (simp add: unat_byte_of)
    have u1: "unat (byte_of (128 + cp mod 64)) = 128 + cp mod 64" by (simp add: unat_byte_of)
    show ?thesis using b d d2 by (simp add: cs u0 u1 cont_def Let_def split: option.splits)
  next
    case c
    have d: "cp div 4096 < 16" using c by (intro less_mult_imp_div_less) simp
    have cs: "cs = [byte_of (224 + cp div 4096), byte_of (128 + cp div 64 mod 64),
                    byte_of (128 + cp mod 64)]"
      using assms c by (auto simp: utf8_char_def)
    have u0: "unat (byte_of (224 + cp div 4096)) = 224 + cp div 4096"
      using d by (simp add: unat_byte_of)
    have u1: "unat (byte_of (128 + cp div 64 mod 64)) = 128 + cp div 64 mod 64"
      by (simp add: unat_byte_of)
    have u2: "unat (byte_of (128 + cp mod 64)) = 128 + cp mod 64" by (simp add: unat_byte_of)
    have e: "cp div 4096 * 4096 + cp div 64 mod 64 * 64 + cp mod 64 = cp" by (rule split64)
    show ?thesis using c d by (simp add: cs u0 u1 u2 cont_def Let_def e split: option.splits)
  next
    case d
    have d0: "cp div 262144 < 8" using d by (intro less_mult_imp_div_less) simp
    have cs: "cs = [byte_of (240 + cp div 262144), byte_of (128 + cp div 4096 mod 64),
                    byte_of (128 + cp div 64 mod 64), byte_of (128 + cp mod 64)]"
      using assms d by (auto simp: utf8_char_def)
    have u0: "unat (byte_of (240 + cp div 262144)) = 240 + cp div 262144"
      using d0 by (simp add: unat_byte_of)
    have u1: "unat (byte_of (128 + cp div 4096 mod 64)) = 128 + cp div 4096 mod 64"
      by (simp add: unat_byte_of)
    have u2: "unat (byte_of (128 + cp div 64 mod 64)) = 128 + cp div 64 mod 64"
      by (simp add: unat_byte_of)
    have u3: "unat (byte_of (128 + cp mod 64)) = 128 + cp mod 64" by (simp add: unat_byte_of)
    have e: "cp div 262144 * 262144 + cp div 4096 mod 64 * 4096 + cp div 64 mod 64 * 64 + cp mod 64 = cp" by (rule split64')
    show ?thesis using d d0 by (simp add: cs u0 u1 u2 u3 cont_def Let_def e split: option.splits)
  qed
qed

lemma utf8_roundtrip: "utf8_encode s = Some bs \<Longrightarrow> utf8_decode bs = Some s"
proof (induction s arbitrary: bs)
  case Nil
  then show ?case by simp
next
  case (Cons cp s)
  then obtain cs rest where c: "utf8_char cp = Some cs" and r: "utf8_encode s = Some rest"
    and bs: "bs = cs @ rest"
    by (auto split: option.splits)
  from Cons.IH [OF r] show ?case by (simp add: bs utf8_char_decode [OF c])
qed

subsection \<open>The cipher\<close>

lemma pkcs7_length: "length (pkcs7 data) = length data + (16 - length data mod 16)"
  by (simp add: pkcs7_def)

lemma demo_unseal_parts:
  assumes "length pre = 25" "take 1 pre = [128]" "0 < k" "k \<le> 16" "16 \<le> length data + k"
  shows "demo_unseal (pre @ (data @ replicate k (byte_of k)) @ replicate 32 0) = Some data"
proof -
  have uk: "unat (byte_of k) = k" using assms by (simp add: unat_byte_of)
  show ?thesis
    unfolding demo_unseal_def using assms by (simp add: Let_def uk)
qed

lemma demo_unseal_seal: "demo_unseal (demo_seal r data) = Some data"
proof -
  define k where "k = 16 - length data mod 16"
  define pre where "pre = 128 # replicate 7 0 @ [byte_of (fst r mod 256)] @ take 16 (snd r @ replicate 16 0)"
  have k: "0 < k" "k \<le> 16" by (simp_all add: k_def)
  have lp: "length pre = 25" "take 1 pre = [128]" by (simp_all add: pre_def)
  have f: "demo_seal r data = pre @ (data @ replicate k (byte_of k)) @ replicate 32 0"
    by (simp add: demo_seal_def pre_def pkcs7_def k_def)
  have ge: "16 \<le> length data + k" by (simp add: k_def)
  show ?thesis unfolding f by (rule demo_unseal_parts [OF lp k ge])
qed

lemma demo_fernet_sound: "fernet_sound demo_fernet"
  by (simp add: fernet_sound_def demo_fernet_def demo_unseal_seal)

lemma encrypt_ok:
  assumes "utf8_encode P = Some data"
  shows "encrypt cm r P = Inr (map unat (urlsafe_b64encode (Fernet_encrypt (cipher cm) r data)))"
  using assms by (simp add: encrypt_def utf8_decode_ascii urlsafe_lt128)

lemma decrypt_try_ok:
  assumes "fernet_sound (cipher cm)" and "utf8_encode P = Some data"
  shows "decrypt_try cm (JStr (map unat (urlsafe_b64encode (Fernet_encrypt (cipher cm) r data)))) = Inr P"
proof -
  have 1: "utf8_encode (map unat (urlsafe_b64encode (Fernet_encrypt (cipher cm) r data)))
           = Some (urlsafe_b64encode (Fernet_encrypt (cipher cm) r data))"
    by (rule utf8_encode_ascii) (simp add: urlsafe_lt128)
  have 2: "Fernet_decrypt (cipher cm) (Fernet_encrypt (cipher cm) r data) = Some data"
  proof -
    from assms(1) have "unseal (cipher cm) (seal (cipher cm) r data) = Some data"
      unfolding fernet_sound_def by blast
    then show ?thesis by (simp add: Fernet_decrypt_def Fernet_encrypt_def urlsafe_roundtrip)
  qed
  show ?thesis
    by (simp add: decrypt_try_def 1 urlsafe_roundtrip 2 utf8_roundtrip [OF assms(2)])
qed


section \<open>Encryption round trip\<close>

text \<open>
  C4, as the code has it. For every \<open>CryptoManager\<close> whose cipher keeps the library's
  contract, every draw of \<open>Fernet.encrypt\<close> and every plaintext that UTF-8 can encode
  (a string without a lone surrogate), \<open>encrypt\<close> returns a ciphertext and \<open>decrypt\<close>
  of that ciphertext returns the plaintext, logging nothing.
\<close>

theorem encrypt_decrypt_roundtrip:
  assumes "fernet_sound (cipher cm)" and "utf8_encode P \<noteq> None"
  shows "\<exists>c. encrypt cm r P = Inr c \<and> decrypt cm (JStr c) = (P, [])"
proof -
  from assms(2) obtain data where d: "utf8_encode P = Some data" by auto
  show ?thesis
    by (simp add: encrypt_ok [OF d] decrypt_def decrypt_try_ok [OF assms(1) d])
qed

theorem encrypt_decrypt_roundtrip_witness:
  "fernet_sound (cipher demo_crypto) \<and> utf8_encode (lit ''hello'') \<noteq> None
   \<and> (\<exists>c. encrypt demo_crypto (drawn demo_env) (lit ''hello'') = Inr c
          \<and> decrypt demo_crypto (JStr c) = (lit ''hello'', []))"
proof -
  have h1: "fernet_sound (cipher demo_crypto)" by (simp add: demo_crypto_def demo_fernet_sound)
  have h2: "utf8_encode (lit ''hello'') \<noteq> None" by (simp add: lit_def utf8_char_def)
  show ?thesis using h1 h2 encrypt_decrypt_roundtrip [OF h1 h2] by simp
qed

text \<open>
  The claim as written, for every plaintext string, fails at the one-character string
  \<open>U+D800\<close>: \<open>message.encode()\<close> raises and \<open>encrypt\<close> returns nothing to
  decrypt.
\<close>

theorem encrypt_surrogate_raises:
  "encrypt demo_crypto (drawn demo_env) [55296] = Inl UnicodeEncodeError"
  by (simp add: encrypt_def utf8_char_def is_surrogate_def)

section \<open>Call signalling on the wire\<close>

lemma map_byte_of_unat: "map byte_of (map unat X) = X"
  by (induction X) (simp_all add: byte_of_unat)

lemma ciphertext_shape:
  assumes "encrypt cm r m = Inr c"
  shows "\<exists>T. urlsafe_b64decode (map byte_of c) = Some T \<and> length T mod 4 = 0
             \<and> (\<forall>x\<in>set T. unat x < 128)"
proof -
  from assms obtain data where d: "utf8_encode m = Some data"
    by (auto simp: encrypt_def split: option.splits)
  define T where "T = Fernet_encrypt (cipher cm) r data"
  have c: "c = map unat (urlsafe_b64encode T)"
    using assms by (simp add: encrypt_ok [OF d] T_def)
  have 1: "urlsafe_b64decode (map byte_of c) = Some T"
    unfolding c map_byte_of_unat by (rule urlsafe_roundtrip)
  have 2: "length T mod 4 = 0" by (simp add: T_def Fernet_encrypt_def length_urlsafe)
  have 3: "\<forall>x\<in>set T. unat x < 128" by (simp add: T_def Fernet_encrypt_def urlsafe_lt128)
  from 1 2 3 show ?thesis by (intro exI [of _ T] conjI)
qed

lemma dec_call_request:
  "urlsafe_b64decode (map byte_of (lit ''call_request'')) = Some [113, 169, 101, 254, 183, 170, 185, 235, 45]"
  by (simp add: lit_def urlsafe_b64decode_def urlsafe_decode_translation_def b64decode_def byte_of_def b64_index_def)


lemma dec_call_accepted: "urlsafe_b64decode (map byte_of (lit ''call_accepted'')) = None"
  by (simp add: lit_def urlsafe_b64decode_def urlsafe_decode_translation_def b64decode_def byte_of_def b64_index_def)

lemma dec_call_ended: "urlsafe_b64decode (map byte_of (lit ''call_ended'')) = None"
  by (simp add: lit_def urlsafe_b64decode_def urlsafe_decode_translation_def b64decode_def byte_of_def b64_index_def)

lemma ciphertext_not_token:
  assumes "encrypt cm r m = Inr c"
  shows "c \<noteq> lit ''call_request''" "c \<noteq> lit ''call_accepted''" "c \<noteq> lit ''call_ended''"
proof -
  from ciphertext_shape [OF assms] obtain T where
    T: "urlsafe_b64decode (map byte_of c) = Some T" "\<forall>x\<in>set T. unat x < 128"
    by blast
  show "c \<noteq> lit ''call_request''"
  proof
    assume "c = lit ''call_request''"
    with T(1) have "T = [113, 169, 101, 254, 183, 170, 185, 235, 45]"
      by (simp add: dec_call_request)
    with T(2) show False by simp
  qed
  show "c \<noteq> lit ''call_accepted''" using T(1) by (auto simp: dec_call_accepted)
  show "c \<noteq> lit ''call_ended''" using T(1) by (auto simp: dec_call_ended)
qed

lemma sent_append: "sent (a @ b) = sent a @ sent b"
  by (induction a rule: sent.induct) simp_all

lemma send_message_sent:
  assumes "p \<in> set (sent (snd (send_message e n rcp m ty)))"
  shows "\<exists>c. encrypt (crypto n) (drawn e) m = Inr c \<and> field p ''type'' = JStr ty
             \<and> field p ''message'' = JStr c"
  using assms
  by (auto simp: send_message_def field_def get_def lit_def Let_def
           split: option.splits sum.splits if_splits)

lemma token_sent:
  assumes "p \<in> set (sent (snd (send_message e n rcp m (lit ''call''))))"
    and "m \<in> {lit ''call_request'', lit ''call_accepted'', lit ''call_ended''}"
  shows "\<exists>c. encrypt (crypto n) (drawn e) m = Inr c \<and> field p ''type'' = JStr (lit ''call'')
             \<and> field p ''message'' = JStr c \<and> c \<noteq> m"
proof -
  from send_message_sent [OF assms(1)] obtain c where
    c: "encrypt (crypto n) (drawn e) m = Inr c" "field p ''type'' = JStr (lit ''call'')"
       "field p ''message'' = JStr c"
    by blast
  have "c \<noteq> m" using ciphertext_not_token [OF c(1)] assms(2) by auto
  with c show ?thesis by blast
qed

lemma utf8_encode_tokens:
  "utf8_encode (lit ''call_request'') = Some (map byte_of (lit ''call_request''))"
  "utf8_encode (lit ''call_accepted'') = Some (map byte_of (lit ''call_accepted''))"
  "utf8_encode (lit ''call_ended'') = Some (map byte_of (lit ''call_ended''))"
  by (rule utf8_encode_lit_ascii, simp add: lit_def)+

lemma send_message_ok:
  assumes "peers n rcp = Some addr" and "utf8_encode m = Some data" and "sendto_ok e"
  shows "send_message e n rcp m ty =
           (Inr True,
            [Sendto addr (JObj [(lit ''type'', JStr ty), (lit ''sender'', JStr (username n)),
                                (lit ''recipient'', JStr rcp),
                                (lit ''message'', JStr (map unat (urlsafe_b64encode
                                    (Fernet_encrypt (cipher (crypto n)) (drawn e) data)))),
                                (lit ''timestamp'', JStr (now e))]),
             Log_info ''Sent message''])"
  using assms by (simp add: send_message_def encrypt_ok)

lemma demo_peers:
  "peers alice (lit ''bob'') = Some (lit ''localhost'', 5001)"
  "peers alice (lit ''carol'') = Some (lit ''localhost'', 5002)"
  "peers bob (lit ''alice'') = Some (lit ''localhost'', 5000)"
  "peers alice_ringing = peers alice" "peers alice_talking = peers alice"
  by (simp_all add: alice_def bob_def alice_ringing_def alice_talking_def lit_def)

lemma demo_fields:
  "username alice = lit ''alice''" "crypto alice = demo_crypto" "\<not> in_call alice"
  "call_partner alice = None" "call_callback bob" "message_callback bob"
  "in_call alice_talking" "call_partner alice_talking = Some (lit ''bob'')"
  "\<not> in_call alice_ringing" "call_partner alice_ringing = Some (lit ''bob'')"
  "crypto alice_talking = demo_crypto" "username alice_talking = lit ''alice''"
  "sendto_ok demo_env"
  by (simp_all add: alice_def bob_def alice_ringing_def alice_talking_def demo_env_def)

lemma dec_AAE: "urlsafe_b64decode (map byte_of (lit ''AAE='')) = Some [0, 1]"
  by (simp add: lit_def urlsafe_b64decode_def urlsafe_decode_translation_def b64decode_def byte_of_def b64_index_def)

text \<open>
  C10. Every packet that \<open>start_call\<close>, \<open>accept_call\<close> or \<open>end_call\<close> hands to the socket
  has type \<open>call\<close> and carries in \<open>message\<close> the result of \<open>encrypt\<close> on the control
  token (\<open>call_request\<close>, \<open>call_accepted\<close>, \<open>call_ended\<close>), and that ciphertext is never
  the literal token.
\<close>

theorem call_signalling_encrypted:
  "(\<forall>p\<in>set (sent (snd (snd (start_call e n rcp)))).
      \<exists>c. encrypt (crypto n) (drawn e) (lit ''call_request'') = Inr c
          \<and> field p ''type'' = JStr (lit ''call'') \<and> field p ''message'' = JStr c
          \<and> c \<noteq> lit ''call_request'')
   \<and> (\<forall>p\<in>set (sent (snd (snd (accept_call e n caller)))).
      \<exists>c. encrypt (crypto n) (drawn e) (lit ''call_accepted'') = Inr c
          \<and> field p ''type'' = JStr (lit ''call'') \<and> field p ''message'' = JStr c
          \<and> c \<noteq> lit ''call_accepted'')
   \<and> (\<forall>p\<in>set (sent (snd (snd (end_call e n)))).
      \<exists>c. encrypt (crypto n) (drawn e) (lit ''call_ended'') = Inr c
          \<and> field p ''type'' = JStr (lit ''call'') \<and> field p ''message'' = JStr c
          \<and> c \<noteq> lit ''call_ended'')"
proof (intro conjI ballI)
  fix p assume "p \<in> set (sent (snd (snd (start_call e n rcp))))"
  then have "p \<in> set (sent (snd (send_message e n rcp (lit ''call_request'') (lit ''call''))))"
    by (auto simp: start_call_def sent_append split: if_splits prod.splits sum.splits)
  from token_sent [OF this] show "\<exists>c. encrypt (crypto n) (drawn e) (lit ''call_request'') = Inr c
          \<and> field p ''type'' = JStr (lit ''call'') \<and> field p ''message'' = JStr c
          \<and> c \<noteq> lit ''call_request''" by simp
next
  fix p assume a: "p \<in> set (sent (snd (snd (accept_call e n caller))))"
  define n1 where "n1 = n\<lparr>in_call := True, call_partner := Some caller\<rparr>"
  from a have "p \<in> set (sent (snd (send_message e n1 caller (lit ''call_accepted'') (lit ''call''))))"
    by (auto simp: accept_call_def sent_append start_recording_def n1_def Let_def
             split: if_splits prod.splits sum.splits)
  from token_sent [OF this] show "\<exists>c. encrypt (crypto n) (drawn e) (lit ''call_accepted'') = Inr c
          \<and> field p ''type'' = JStr (lit ''call'') \<and> field p ''message'' = JStr c
          \<and> c \<noteq> lit ''call_accepted''" by (simp add: n1_def)
next
  fix p assume a: "p \<in> set (sent (snd (snd (end_call e n))))"
  then obtain q where "p \<in> set (sent (snd (send_message e n q (lit ''call_ended'') (lit ''call''))))"
    by (auto simp: end_call_def sent_append split: if_splits prod.splits sum.splits option.splits)
       (metis snd_conv)+
  from token_sent [OF this] show "\<exists>c. encrypt (crypto n) (drawn e) (lit ''call_ended'') = Inr c
          \<and> field p ''type'' = JStr (lit ''call'') \<and> field p ''message'' = JStr c
          \<and> c \<noteq> lit ''call_ended''" by simp
qed

theorem call_signalling_encrypted_witness:
  "(\<exists>p c. p \<in> set (sent (snd (snd (start_call demo_env alice (lit ''bob'')))))
        \<and> encrypt (crypto alice) (drawn demo_env) (lit ''call_request'') = Inr c
        \<and> field p ''type'' = JStr (lit ''call'') \<and> field p ''message'' = JStr c
        \<and> c \<noteq> lit ''call_request'')
   \<and> (\<exists>p c. p \<in> set (sent (snd (snd (accept_call demo_env bob (lit ''alice'')))))
        \<and> encrypt (crypto bob) (drawn demo_env) (lit ''call_accepted'') = Inr c
        \<and> field p ''type'' = JStr (lit ''call'') \<and> field p ''message'' = JStr c
        \<and> c \<noteq> lit ''call_accepted'')
   \<and> (\<exists>p c. p \<in> set (sent (snd (snd (end_call demo_env alice_talking))))
        \<and> encrypt (crypto alice_talking) (drawn demo_env) (lit ''call_ended'') = Inr c
        \<and> field p ''type'' = JStr (lit ''call'') \<and> field p ''message'' = JStr c
        \<and> c \<noteq> lit ''call_ended'')"
proof -
  have ok: "sendto_ok demo_env" by (simp add: demo_env_def)
  have 1: "sent (snd (snd (start_call demo_env alice (lit ''bob'')))) \<noteq> []"
    by (simp add: start_call_def send_message_ok [OF demo_peers(1) utf8_encode_tokens(1) ok])
       (simp add: alice_def)
  have 2: "sent (snd (snd (accept_call demo_env bob (lit ''alice'')))) \<noteq> []"
  proof -
    have p: "peers (bob\<lparr>in_call := True, call_partner := Some (lit ''alice'')\<rparr>) (lit ''alice'')
             = Some (lit ''localhost'', 5000)"
      by (simp add: demo_peers)
    show ?thesis
      by (simp add: accept_call_def Let_def send_message_ok [OF p utf8_encode_tokens(2) ok]
            start_recording_def split: prod.splits)
         (simp add: bob_def)
  qed
  have 3: "sent (snd (snd (end_call demo_env alice_talking))) \<noteq> []"
  proof -
    have p: "peers alice_talking (lit ''bob'') = Some (lit ''localhost'', 5001)"
      by (simp add: demo_peers)
    have q: "call_partner alice_talking = Some (lit ''bob'')" "in_call alice_talking"
      "lit ''bob'' \<noteq> []"
      by (simp_all add: alice_talking_def lit_def)
    show ?thesis
      by (simp add: end_call_def q send_message_ok [OF p utf8_encode_tokens(3) ok])
  qed
  from 1 obtain p1 where p1: "p1 \<in> set (sent (snd (snd (start_call demo_env alice (lit ''bob'')))))"
    by (cases "sent (snd (snd (start_call demo_env alice (lit ''bob''))))") auto
  from 2 obtain p2 where p2: "p2 \<in> set (sent (snd (snd (accept_call demo_env bob (lit ''alice'')))))"
    by (cases "sent (snd (snd (accept_call demo_env bob (lit ''alice''))))") auto
  from 3 obtain p3 where p3: "p3 \<in> set (sent (snd (snd (end_call demo_env alice_talking))))"
    by (cases "sent (snd (snd (end_call demo_env alice_talking)))") auto
  show ?thesis
    using p1 p2 p3
      call_signalling_encrypted [where e = demo_env and n = alice and rcp = "lit ''bob''"]
      call_signalling_encrypted [where e = demo_env and n = bob and caller = "lit ''alice''"]
      call_signalling_encrypted [where e = demo_env and n = alice_talking]
    by blast
qed

text \<open>
  C1, on the code. Alice, idle and with Bob in her peer table, starts a call to Bob: she
  sends one \<open>call\<close> packet whose \<open>message\<close> is the ciphertext of \<open>call_request\<close>, not
  the token. Bob, idle and with his call callback registered, handles that packet by
  comparing \<open>message\<close> with the literal tokens: nothing matches, no callback is
  called, and Bob is unchanged.
\<close>

theorem call_request_not_recognised:
  "\<exists>c. start_call demo_env alice (lit ''bob'') =
          (Inr True, alice_ringing,
           [Sendto (lit ''localhost'', 5001)
              (JObj [(lit ''type'', JStr (lit ''call'')), (lit ''sender'', JStr (lit ''alice'')),
                     (lit ''recipient'', JStr (lit ''bob'')), (lit ''message'', JStr c),
                     (lit ''timestamp'', JStr (now demo_env))]),
            Log_info ''Sent message'', Log_info ''Call request sent''])
      \<and> c \<noteq> lit ''call_request''
      \<and> handle_packet bob
           (JObj [(lit ''type'', JStr (lit ''call'')), (lit ''sender'', JStr (lit ''alice'')),
                  (lit ''recipient'', JStr (lit ''bob'')), (lit ''message'', JStr c),
                  (lit ''timestamp'', JStr (now demo_env))])
          = Inr (bob, [])"
proof -
  define c where "c = map unat (urlsafe_b64encode (Fernet_encrypt (cipher (crypto alice))
                     (drawn demo_env) (map byte_of (lit ''call_request''))))"
  have enc: "encrypt (crypto alice) (drawn demo_env) (lit ''call_request'') = Inr c"
    by (simp add: encrypt_ok [OF utf8_encode_tokens(1)] c_def)
  note ne = ciphertext_not_token [OF enc]
  have 1: "start_call demo_env alice (lit ''bob'') =
          (Inr True, alice_ringing,
           [Sendto (lit ''localhost'', 5001)
              (JObj [(lit ''type'', JStr (lit ''call'')), (lit ''sender'', JStr (lit ''alice'')),
                     (lit ''recipient'', JStr (lit ''bob'')), (lit ''message'', JStr c),
                     (lit ''timestamp'', JStr (now demo_env))]),
            Log_info ''Sent message'', Log_info ''Call request sent''])"
    by (simp add: start_call_def send_message_ok [OF demo_peers(1) utf8_encode_tokens(1) demo_fields(13)]
          demo_fields c_def alice_ringing_def)
  have 2: "handle_packet bob
           (JObj [(lit ''type'', JStr (lit ''call'')), (lit ''sender'', JStr (lit ''alice'')),
                  (lit ''recipient'', JStr (lit ''bob'')), (lit ''message'', JStr c),
                  (lit ''timestamp'', JStr (now demo_env))])
          = Inr (bob, [])"
    using ne by (simp add: handle_packet_def get_def lit_def Let_def)
  from 1 ne(1) 2 show ?thesis by blast
qed

section \<open>Audio on the wire\<close>

text \<open>
  C2, on the code. Alice, in a call with Bob, is given the chunk \<open>00 01\<close>, whose base64
  text is \<open>AAE=\<close>. \<open>_send_audio\<close> passes that text to \<open>send_message\<close>, which encrypts
  it: the \<open>audio\<close> packet carries the ciphertext of \<open>AAE=\<close>, which differs from
  \<open>AAE=\<close>.
\<close>

theorem audio_passes_through_cipher:
  "\<exists>c. send_audio demo_env alice_talking [0, 1] =
          (Inr (),
           [Sendto (lit ''localhost'', 5001)
              (JObj [(lit ''type'', JStr (lit ''audio'')), (lit ''sender'', JStr (lit ''alice'')),
                     (lit ''recipient'', JStr (lit ''bob'')), (lit ''message'', JStr c),
                     (lit ''timestamp'', JStr (now demo_env))]),
            Log_info ''Sent message''])
      \<and> utf8_decode (b64encode [0, 1]) = Some (lit ''AAE='')
      \<and> encrypt (crypto alice_talking) (drawn demo_env) (lit ''AAE='') = Inr c
      \<and> c \<noteq> lit ''AAE=''"
proof -
  have b: "utf8_decode (b64encode [0, 1]) = Some (lit ''AAE='')"
    by (simp add: b64encode_def b64_char_def byte_of_def lit_def)
  have u: "utf8_encode (lit ''AAE='') = Some (map byte_of (lit ''AAE=''))"
    by (rule utf8_encode_lit_ascii) (simp add: lit_def)
  define c where "c = map unat (urlsafe_b64encode (Fernet_encrypt (cipher (crypto alice_talking))
                     (drawn demo_env) (map byte_of (lit ''AAE=''))))"
  have enc: "encrypt (crypto alice_talking) (drawn demo_env) (lit ''AAE='') = Inr c"
    by (simp add: encrypt_ok [OF u] c_def)
  have ne: "c \<noteq> lit ''AAE=''"
  proof
    assume "c = lit ''AAE=''"
    with ciphertext_shape [OF enc] have "length [0::byte, 1] mod 4 = 0"
      by (auto simp: dec_AAE)
    then show False by simp
  qed
  have p: "peers alice_talking (lit ''bob'') = Some (lit ''localhost'', 5001)"
    by (simp add: demo_peers)
  have 1: "send_audio demo_env alice_talking [0, 1] =
          (Inr (),
           [Sendto (lit ''localhost'', 5001)
              (JObj [(lit ''type'', JStr (lit ''audio'')), (lit ''sender'', JStr (lit ''alice'')),
                     (lit ''recipient'', JStr (lit ''bob'')), (lit ''message'', JStr c),
                     (lit ''timestamp'', JStr (now demo_env))]),
            Log_info ''Sent message''])"
    unfolding send_audio_def
    by (simp add: b demo_fields truthy_def send_message_ok [OF p u demo_fields(13)] c_def)
       (simp add: lit_def)
  from 1 b enc ne show ?thesis by blast
qed

section \<open>Guards of the call operations\<close>

lemma send_message_returns:
  assumes "utf8_encode m = Some data"
  shows "\<exists>b fx. send_message e n rcp m ty = (Inr b, fx)"
  using assms by (auto simp add: send_message_def encrypt_ok split: option.split)

text \<open>
  C5, as the code has it. The only guard is the flag \<open>in_call\<close>. When it is set,
  \<open>start_call\<close> and \<open>accept_call\<close> return \<open>False\<close>, change nothing and send nothing;
  when it is not set, \<open>end_call\<close> does nothing. When it is not set, \<open>start_call\<close> and
  \<open>accept_call\<close> go ahead whatever \<open>call_partner\<close> holds: \<open>accept_call\<close> returns
  \<open>True\<close> and makes the caller the partner of an active call, and \<open>start_call\<close>, for a
  recipient in the peer table and a socket that works, returns \<open>True\<close> and records the
  recipient as the partner.
\<close>

theorem call_guards:
  "(in_call n \<longrightarrow> start_call e n rcp = (Inr False, n, []))
   \<and> (in_call n \<longrightarrow> accept_call e n caller = (Inr False, n, []))
   \<and> (\<not> in_call n \<longrightarrow> end_call e n = (Inr (), n, []))
   \<and> (\<not> in_call n \<and> peers n rcp \<noteq> None \<and> sendto_ok e \<longrightarrow>
        fst (start_call e n rcp) = Inr True
        \<and> call_state (fst (snd (start_call e n rcp))) = (False, Some rcp))
   \<and> (\<not> in_call n \<longrightarrow>
        fst (accept_call e n caller) = Inr True
        \<and> call_state (fst (snd (accept_call e n caller))) = (True, Some caller))"
proof (intro conjI impI)
  assume "in_call n"
  then show "start_call e n rcp = (Inr False, n, [])" by (simp add: start_call_def)
next
  assume "in_call n"
  then show "accept_call e n caller = (Inr False, n, [])" by (simp add: accept_call_def)
next
  assume "\<not> in_call n"
  then show "end_call e n = (Inr (), n, [])" by (simp add: end_call_def)
next
  assume a: "\<not> in_call n \<and> peers n rcp \<noteq> None \<and> sendto_ok e"
  then obtain addr where p: "peers n rcp = Some addr" by auto
  from a have ok: "sendto_ok e" by simp
  from a show "fst (start_call e n rcp) = Inr True"
    by (simp add: start_call_def send_message_ok [OF p utf8_encode_tokens(1) ok])
  from a show "call_state (fst (snd (start_call e n rcp))) = (False, Some rcp)"
    by (simp add: start_call_def send_message_ok [OF p utf8_encode_tokens(1) ok] call_state_def)
next
  assume a: "\<not> in_call n"
  define n1 where "n1 = n\<lparr>in_call := True, call_partner := Some caller\<rparr>"
  from send_message_returns [OF utf8_encode_tokens(2)] obtain b fx where
    s: "send_message e n1 caller (lit ''call_accepted'') (lit ''call'') = (Inr b, fx)"
    by blast
  from a s show "fst (accept_call e n caller) = Inr True"
    by (simp add: accept_call_def Let_def n1_def [symmetric] split: prod.split)
  from a s show "call_state (fst (snd (accept_call e n caller))) = (True, Some caller)"
    by (simp add: accept_call_def Let_def n1_def [symmetric] start_recording_def call_state_def
          split: prod.split)
       (simp add: n1_def)
qed

theorem call_guards_witness:
  "in_call alice_talking \<and> \<not> in_call alice \<and> \<not> in_call alice_ringing
   \<and> call_partner alice_ringing = Some (lit ''bob'')
   \<and> peers alice_ringing (lit ''carol'') \<noteq> None \<and> sendto_ok demo_env
   \<and> start_call demo_env alice_talking (lit ''carol'') = (Inr False, alice_talking, [])
   \<and> accept_call demo_env alice_talking (lit ''carol'') = (Inr False, alice_talking, [])
   \<and> end_call demo_env alice = (Inr (), alice, [])
   \<and> fst (start_call demo_env alice_ringing (lit ''carol'')) = Inr True
   \<and> call_state (fst (snd (start_call demo_env alice_ringing (lit ''carol''))))
       = (False, Some (lit ''carol''))
   \<and> fst (accept_call demo_env alice_ringing (lit ''carol'')) = Inr True
   \<and> call_state (fst (snd (accept_call demo_env alice_ringing (lit ''carol''))))
       = (True, Some (lit ''carol''))"
proof -
  have h1: "in_call alice_talking" by (simp add: alice_talking_def)
  have h2: "\<not> in_call alice" by (simp add: alice_def)
  have h3: "\<not> in_call alice_ringing" "call_partner alice_ringing = Some (lit ''bob'')"
    by (simp_all add: demo_fields)
  have h4: "peers alice_ringing (lit ''carol'') \<noteq> None" by (simp add: demo_peers)
  have h5: "sendto_ok demo_env" by (rule demo_fields)
  show ?thesis
    using h1 h2 h3 h4 h5
      call_guards [where n = alice_talking and e = demo_env and rcp = "lit ''carol''"
        and caller = "lit ''carol''"]
      call_guards [where n = alice and e = demo_env]
      call_guards [where n = alice_ringing and e = demo_env and rcp = "lit ''carol''"
        and caller = "lit ''carol''"]
    by simp
qed

text \<open>
  The claim as written fails for a call that is pending: Alice has asked Bob for a call
  (\<open>call_partner\<close> is Bob, \<open>in_call\<close> is not set). \<open>start_call\<close> to Carol succeeds and
  replaces the partner, and \<open>accept_call\<close> of Carol succeeds although another party is
  associated.
\<close>

theorem pending_call_not_guarded:
  "call_state alice_ringing = (False, Some (lit ''bob''))
   \<and> fst (start_call demo_env alice_ringing (lit ''carol'')) = Inr True
   \<and> call_state (fst (snd (start_call demo_env alice_ringing (lit ''carol''))))
       = (False, Some (lit ''carol''))
   \<and> fst (accept_call demo_env alice_ringing (lit ''carol'')) = Inr True
   \<and> call_state (fst (snd (accept_call demo_env alice_ringing (lit ''carol''))))
       = (True, Some (lit ''carol''))
   \<and> lit ''carol'' \<noteq> lit ''bob''"
proof -
  have u: "utf8_encode (lit ''call_request'') = Some (map byte_of (lit ''call_request''))"
    "utf8_encode (lit ''call_accepted'') = Some (map byte_of (lit ''call_accepted''))"
    by (rule utf8_encode_tokens)+
  have p: "peers alice_ringing (lit ''carol'') = Some (lit ''localhost'', 5002)"
    by (simp add: demo_peers)
  have p': "peers (alice_ringing\<lparr>in_call := True, call_partner := Some (lit ''carol'')\<rparr>) (lit ''carol'')
            = Some (lit ''localhost'', 5002)"
    by (simp add: demo_peers)
  have 1: "fst (start_call demo_env alice_ringing (lit ''carol'')) = Inr True"
    "call_state (fst (snd (start_call demo_env alice_ringing (lit ''carol''))))
       = (False, Some (lit ''carol''))"
    by (simp_all add: start_call_def demo_fields send_message_ok [OF p u(1) demo_fields(13)]
          call_state_def)
  have 2: "fst (accept_call demo_env alice_ringing (lit ''carol'')) = Inr True"
    "call_state (fst (snd (accept_call demo_env alice_ringing (lit ''carol''))))
       = (True, Some (lit ''carol''))"
    by (simp_all add: accept_call_def demo_fields send_message_ok [OF p' u(2) demo_fields(13)]
          call_state_def Let_def start_recording_def)
  have 3: "call_state alice_ringing = (False, Some (lit ''bob''))"
    by (simp add: call_state_def demo_fields)
  have 4: "lit ''carol'' \<noteq> lit ''bob''" by (simp add: lit_def)
  from 1 2 3 4 show ?thesis by simp
qed

section \<open>Outcomes of \<open>send_message\<close>\<close>

text \<open>
  C6, as the code has it. A recipient that is not in the peer table: \<open>False\<close>, one error
  logged, nothing sent. A recipient that is in the table and a text that UTF-8 can
  encode: when the socket write raises, \<open>False\<close> and one error logged; otherwise \<open>True\<close>,
  after exactly one packet handed to the socket, holding the ciphertext of the text and
  the time stamp.
\<close>

theorem send_message_outcomes:
  "(peers n rcp = None \<longrightarrow>
      send_message e n rcp m ty = (Inr False, [Log_error ''Peer not found'']))
   \<and> (peers n rcp \<noteq> None \<and> utf8_encode m \<noteq> None \<and> \<not> sendto_ok e \<longrightarrow>
      send_message e n rcp m ty = (Inr False, [Log_error ''Failed to send message'']))
   \<and> (peers n rcp = Some addr \<and> utf8_encode m \<noteq> None \<and> sendto_ok e \<longrightarrow>
      (\<exists>c. encrypt (crypto n) (drawn e) m = Inr c
           \<and> send_message e n rcp m ty =
               (Inr True,
                [Sendto addr
                   (JObj [(lit ''type'', JStr ty), (lit ''sender'', JStr (username n)),
                          (lit ''recipient'', JStr rcp), (lit ''message'', JStr c),
                          (lit ''timestamp'', JStr (now e))]),
                 Log_info ''Sent message''])))"
proof (intro conjI impI)
  assume "peers n rcp = None"
  then show "send_message e n rcp m ty = (Inr False, [Log_error ''Peer not found''])"
    by (simp add: send_message_def)
next
  assume a: "peers n rcp \<noteq> None \<and> utf8_encode m \<noteq> None \<and> \<not> sendto_ok e"
  then obtain addr data where "peers n rcp = Some addr" "utf8_encode m = Some data" by auto
  with a show "send_message e n rcp m ty = (Inr False, [Log_error ''Failed to send message''])"
    by (simp add: send_message_def encrypt_ok)
next
  assume a: "peers n rcp = Some addr \<and> utf8_encode m \<noteq> None \<and> sendto_ok e"
  then obtain data where d: "utf8_encode m = Some data" by auto
  from a show "\<exists>c. encrypt (crypto n) (drawn e) m = Inr c
           \<and> send_message e n rcp m ty =
               (Inr True,
                [Sendto addr
                   (JObj [(lit ''type'', JStr ty), (lit ''sender'', JStr (username n)),
                          (lit ''recipient'', JStr rcp), (lit ''message'', JStr c),
                          (lit ''timestamp'', JStr (now e))]),
                 Log_info ''Sent message''])"
    by (simp add: send_message_ok [OF _ d] encrypt_ok [OF d])
qed

theorem send_message_outcomes_witness:
  "peers alice (lit ''dave'') = None
   \<and> send_message demo_env alice (lit ''dave'') (lit ''hello'') (lit ''text'')
       = (Inr False, [Log_error ''Peer not found''])
   \<and> peers alice (lit ''bob'') \<noteq> None \<and> utf8_encode (lit ''hello'') \<noteq> None
   \<and> \<not> sendto_ok (demo_env\<lparr>sendto_ok := False\<rparr>)
   \<and> send_message (demo_env\<lparr>sendto_ok := False\<rparr>) alice (lit ''bob'') (lit ''hello'') (lit ''text'')
       = (Inr False, [Log_error ''Failed to send message''])
   \<and> peers alice (lit ''bob'') = Some (lit ''localhost'', 5001) \<and> sendto_ok demo_env
   \<and> (\<exists>c. encrypt (crypto alice) (drawn demo_env) (lit ''hello'') = Inr c
        \<and> send_message demo_env alice (lit ''bob'') (lit ''hello'') (lit ''text'') =
               (Inr True,
                [Sendto (lit ''localhost'', 5001)
                   (JObj [(lit ''type'', JStr (lit ''text'')), (lit ''sender'', JStr (username alice)),
                          (lit ''recipient'', JStr (lit ''bob'')), (lit ''message'', JStr c),
                          (lit ''timestamp'', JStr (now demo_env))]),
                 Log_info ''Sent message'']))"
proof -
  have h1: "peers alice (lit ''dave'') = None" by (simp add: alice_def lit_def)
  have h2: "peers alice (lit ''bob'') = Some (lit ''localhost'', 5001)" by (rule demo_peers)
  have h3: "utf8_encode (lit ''hello'') \<noteq> None" by (simp add: lit_def utf8_char_def)
  have h4: "\<not> sendto_ok (demo_env\<lparr>sendto_ok := False\<rparr>)" by simp
  have h5: "sendto_ok demo_env" by (rule demo_fields)
  show ?thesis
    using h1 h2 h3 h4 h5
      send_message_outcomes [where n = alice and rcp = "lit ''dave''" and e = demo_env
        and m = "lit ''hello''" and ty = "lit ''text''"]
      send_message_outcomes [where n = alice and rcp = "lit ''bob''"
        and e = "demo_env\<lparr>sendto_ok := False\<rparr>" and m = "lit ''hello''" and ty = "lit ''text''"]
      send_message_outcomes [where n = alice and rcp = "lit ''bob''" and e = demo_env
        and m = "lit ''hello''" and ty = "lit ''text''" and addr = "(lit ''localhost'', 5001)"]
    by simp
qed

text \<open>
  The claim as written, for every text, fails for a recipient that is present, a socket
  that works and the text \<open>U+D800\<close>: \<open>encrypt\<close> is called outside the \<open>try\<close>, so
  \<open>send_message\<close> raises and returns neither flag.
\<close>

theorem send_message_surrogate_raises:
  "peers alice (lit ''bob'') = Some (lit ''localhost'', 5001) \<and> sendto_ok demo_env
   \<and> send_message demo_env alice (lit ''bob'') [55296] (lit ''text'') = (Inl UnicodeEncodeError, [])"
  by (simp add: send_message_def demo_peers demo_fields encrypt_def utf8_char_def is_surrogate_def)

section \<open>Call packets from anyone, in any state\<close>

lemma lit_neq:
  "lit ''text'' \<noteq> lit ''call''" "lit ''call'' \<noteq> lit ''audio''" "lit ''call'' \<noteq> lit ''link''"
  "lit ''call'' \<noteq> lit ''text''"
  "lit ''call_request'' \<noteq> lit ''call_accepted''" "lit ''call_request'' \<noteq> lit ''call_ended''"
  "lit ''call_accepted'' \<noteq> lit ''call_ended''" "lit ''call_accepted'' \<noteq> lit ''call_request''"
  "lit ''call_ended'' \<noteq> lit ''call_request''" "lit ''call_ended'' \<noteq> lit ''call_accepted''"
  by (simp_all add: lit_def)


lemma handle_packet_call:
  assumes "get d (lit ''type'') = JStr (lit ''call'')"
  shows "handle_packet n (JObj d) = Inr
     (if get d (lit ''message'') = JStr (lit ''call_request'') then
        (n, call_event n ''incoming'' (get d (lit ''sender'')))
      else if get d (lit ''message'') = JStr (lit ''call_accepted'') then
        (n\<lparr>in_call := True, audio := fst (start_recording (audio n))\<rparr>,
         snd (start_recording (audio n)) @ call_event n ''accepted'' (get d (lit ''sender'')))
      else if get d (lit ''message'') = JStr (lit ''call_ended'') then
        (n\<lparr>in_call := False, call_partner := None, audio := stop_recording (audio n)\<rparr>,
         call_event n ''ended'' (get d (lit ''sender'')))
      else (n, []))"
  using assms by (simp add: handle_packet_def Let_def lit_neq split: prod.split)

text \<open>
  C3, on the code. The call branch of \<open>_handle_packet\<close> never compares the sender with
  \<open>call_partner\<close> and never looks at the state of the call. Alice is in a call with Bob
  and a \<open>call_ended\<close> arrives from Eve, who is not the current party: the call is ended,
  where the claim says the state is unchanged. Alice is idle and a \<open>call_accepted\<close>
  arrives: \<open>in_call\<close> is set, where the claim says the state is unchanged. (The callback
  registered by the window only writes to the display for \<open>ended\<close> and \<open>accepted\<close>.)
\<close>

theorem call_ended_from_stranger:
  "call_state alice_talking = (True, Some (lit ''bob'')) \<and> lit ''eve'' \<noteq> lit ''bob''
   \<and> handle_packet alice_talking
        (JObj [(lit ''type'', JStr (lit ''call'')), (lit ''sender'', JStr (lit ''eve'')),
               (lit ''message'', JStr (lit ''call_ended''))])
      = Inr (alice_talking\<lparr>in_call := False, call_partner := None,
                            audio := stop_recording (audio alice_talking)\<rparr>,
             [Call_callback (lit ''ended'') (JStr (lit ''eve''))])
   \<and> call_state alice = (False, None)
   \<and> handle_packet alice
        (JObj [(lit ''type'', JStr (lit ''call'')), (lit ''sender'', JStr (lit ''eve'')),
               (lit ''message'', JStr (lit ''call_accepted''))])
      = Inr (alice\<lparr>in_call := True, audio := (audio alice)\<lparr>recording := True\<rparr>\<rparr>,
             [Record_thread, Call_callback (lit ''accepted'') (JStr (lit ''eve''))])"
proof -
  have g: "get [(lit ''type'', JStr (lit ''call'')), (lit ''sender'', JStr (lit ''eve'')),
               (lit ''message'', JStr (lit ''call_ended''))] (lit ''type'') = JStr (lit ''call'')"
    "get [(lit ''type'', JStr (lit ''call'')), (lit ''sender'', JStr (lit ''eve'')),
               (lit ''message'', JStr (lit ''call_ended''))] (lit ''message'') = JStr (lit ''call_ended'')"
    "get [(lit ''type'', JStr (lit ''call'')), (lit ''sender'', JStr (lit ''eve'')),
               (lit ''message'', JStr (lit ''call_ended''))] (lit ''sender'') = JStr (lit ''eve'')"
    "get [(lit ''type'', JStr (lit ''call'')), (lit ''sender'', JStr (lit ''eve'')),
               (lit ''message'', JStr (lit ''call_accepted''))] (lit ''type'') = JStr (lit ''call'')"
    "get [(lit ''type'', JStr (lit ''call'')), (lit ''sender'', JStr (lit ''eve'')),
               (lit ''message'', JStr (lit ''call_accepted''))] (lit ''message'') = JStr (lit ''call_accepted'')"
    "get [(lit ''type'', JStr (lit ''call'')), (lit ''sender'', JStr (lit ''eve'')),
               (lit ''message'', JStr (lit ''call_accepted''))] (lit ''sender'') = JStr (lit ''eve'')"
    by (simp_all add: get_def lit_def)
  have 1: "call_state alice_talking = (True, Some (lit ''bob''))"
    "call_state alice = (False, None)"
    by (simp_all add: call_state_def demo_fields)
  have 2: "lit ''eve'' \<noteq> lit ''bob''" by (simp add: lit_def)
  have c: "call_callback alice" "call_callback alice_talking" "has_audio (audio alice)"
    by (simp_all add: alice_def alice_talking_def)
  have 3: "handle_packet alice_talking
        (JObj [(lit ''type'', JStr (lit ''call'')), (lit ''sender'', JStr (lit ''eve'')),
               (lit ''message'', JStr (lit ''call_ended''))])
      = Inr (alice_talking\<lparr>in_call := False, call_partner := None,
                            audio := stop_recording (audio alice_talking)\<rparr>,
             [Call_callback (lit ''ended'') (JStr (lit ''eve''))])"
    by (simp add: handle_packet_call [OF g(1)] g lit_neq call_event_def c)
  have 4: "handle_packet alice
        (JObj [(lit ''type'', JStr (lit ''call'')), (lit ''sender'', JStr (lit ''eve'')),
               (lit ''message'', JStr (lit ''call_accepted''))])
      = Inr (alice\<lparr>in_call := True, audio := (audio alice)\<lparr>recording := True\<rparr>\<rparr>,
             [Record_thread, Call_callback (lit ''accepted'') (JStr (lit ''eve''))])"
    by (simp add: handle_packet_call [OF g(4)] g lit_neq call_event_def c start_recording_def)
  from 1 2 3 4 show ?thesis by simp
qed

section \<open>The receive loop\<close>










section \<open>Tampering with a ciphertext\<close>

lemma a2b_junk: "\<forall>j\<in>set js. j \<noteq> 61 \<and> b64_index j = None \<Longrightarrow>
    a2b_base64 qp lc p out (js @ cs) = a2b_base64 qp lc p out cs"
  by (induction js) simp_all

lemma a2b_insert_junk:
  "\<forall>j\<in>set js. j \<noteq> 61 \<and> b64_index j = None \<Longrightarrow>
    a2b_base64 qp lc p out (pre @ js @ post) = a2b_base64 qp lc p out (pre @ post)"
proof (induction pre arbitrary: qp lc p out)
  case Nil
  then show ?case by (simp add: a2b_junk)
next
  case (Cons c pre)
  show ?case
    by (simp add: Cons.IH [OF Cons.prems] split: option.split)
qed

lemma a2b_pad_low: "qp < 2 \<Longrightarrow> a2b_base64 qp lc p out (61 # cs) = a2b_base64 qp lc p out cs"
  by simp

lemma a2b_from_3: "a2b_base64 3 lc p out (b2a_base64 xs) = None"
proof (induction xs arbitrary: lc p out rule: b2a_base64.induct)
  case 1
  then show ?case by simp
next
  case (2 a)
  show ?case
    by (simp only: b2a_base64.simps a2b_data idx_bounds) simp
next
  case (3 a b)
  show ?case
    by (simp only: b2a_base64.simps a2b_data idx_bounds) simp
next
  case (4 a b c rest)
  show ?case
    by (simp only: b2a_base64.simps a2b_data idx_bounds append.simps) (simp add: "4.IH" del: a2b_base64.simps)
qed


lemma lt4_cases: "i < 4 \<Longrightarrow> i = 0 \<or> i = Suc 0 \<or> i = 2 \<or> i = (3::nat)"
  by arith

lemma a2b_deleted:
  "i < length (b2a_base64 xs) \<Longrightarrow>
     a2b_base64 0 lc p out (take i (b2a_base64 xs) @ drop (Suc i) (b2a_base64 xs)) = None"
proof (induction xs arbitrary: i lc p out rule: b2a_base64.induct)
  case 1
  then show ?case by simp
next
  case (2 a)
  then have "i < 4" by simp
  from lt4_cases [OF this] show ?case
    by (elim disjE; simp only: b2a_base64.simps) (simp_all add: a2b_data idx_bounds numeral_2_eq_2 numeral_3_eq_3 del: a2b_base64.simps, simp_all)
next
  case (3 a b)
  then have "i < 4" by simp
  from lt4_cases [OF this] show ?case
    by (elim disjE; simp only: b2a_base64.simps) (simp_all add: a2b_data idx_bounds numeral_2_eq_2 numeral_3_eq_3 del: a2b_base64.simps, simp_all)
next
  case (4 a b c rest)
  show ?case
  proof (cases "i < 4")
    case True
    from lt4_cases [OF this] show ?thesis
      by (elim disjE; simp only: b2a_base64.simps)
         (simp_all add: a2b_data idx_bounds numeral_2_eq_2 numeral_3_eq_3 a2b_from_3 [unfolded numeral_3_eq_3] del: a2b_base64.simps)
  next
    case False
    then have "i = Suc (Suc (Suc (Suc (i - 4))))" by arith
    then obtain k where k: "i = Suc (Suc (Suc (Suc k)))" ..
    with "4.prems" have kl: "k < length (b2a_base64 rest)" by simp
    show ?thesis
      by (simp add: k a2b_quad "4.IH" [OF kl] del: a2b_base64.simps)
  qed
qed

lemma utf8_encode_append:
  "utf8_encode (a @ b) =
     (case utf8_encode a of None \<Rightarrow> None
      | Some x \<Rightarrow> (case utf8_encode b of None \<Rightarrow> None | Some y \<Rightarrow> Some (x @ y)))"
  by (induction a) (auto split: option.splits)

lemma utf8_char_outside:
  assumes "utf8_char x = Some js" and "\<not> base64_character x"
  shows "\<forall>j\<in>set (map urlsafe_decode_translation js). j \<noteq> 61 \<and> b64_index j = None"
proof (cases "x < 128")
  case True
  then have js: "js = [byte_of x]" using assms(1) by (simp add: utf8_char_def)
  have u: "unat (byte_of x) = x" using True by (simp add: unat_byte_of)
  have ne: "byte_of x \<noteq> 45" "byte_of x \<noteq> 95" "byte_of x \<noteq> 61"
    using assms(2) u by (auto simp: base64_character_def)
  have "b64_index (byte_of x) = None"
    using assms(2) by (auto simp: b64_index_def u base64_character_def Let_def)
  with ne show ?thesis by (simp add: js urlsafe_decode_translation_def)
next
  case False
  have hi: "\<forall>j\<in>set js. 128 \<le> unat j"
    using assms(1) False
    by (auto simp: utf8_char_def unat_byte_of split: if_splits)
  have "j \<noteq> 61 \<and> b64_index j = None \<and> urlsafe_decode_translation j = j"
    if "128 \<le> unat j" for j :: byte
  proof -
    have "j \<noteq> 61" "j \<noteq> 45" "j \<noteq> 95" using that by auto
    moreover have "b64_index j = None" using that by (simp add: b64_index_def Let_def)
    ultimately show ?thesis by (simp add: urlsafe_decode_translation_def)
  qed
  with hi show ?thesis by auto
qed

lemma map_tr_urlsafe: "map urlsafe_decode_translation (urlsafe_b64encode T) = b2a_base64 T"
  using b2a_no_urlsafe [of _ T]
  by (simp add: urlsafe_b64encode_def b64encode_def map_idI
        urlsafe_decode_translation_def urlsafe_encode_translation_def)

lemma decode_replaced:
  assumes "i < length X" and X: "X = urlsafe_b64encode T"
    and js: "\<forall>j\<in>set (map urlsafe_decode_translation js). j \<noteq> 61 \<and> b64_index j = None"
  shows "urlsafe_b64decode (take i X @ js @ drop (Suc i) X) = None"
proof -
  have l: "i < length (b2a_base64 T)" using assms(1) map_tr_urlsafe [of T] X
    by (metis length_map)
  have "map urlsafe_decode_translation (take i X @ js @ drop (Suc i) X)
        = take i (b2a_base64 T) @ map urlsafe_decode_translation js @ drop (Suc i) (b2a_base64 T)"
    by (simp add: take_map [symmetric] drop_map [symmetric] X map_tr_urlsafe)
  then show ?thesis
    by (simp add: urlsafe_b64decode_def b64decode_def a2b_insert_junk [OF js] a2b_deleted [OF l])
qed

lemma decrypt_try_replaced:
  assumes enc: "encrypt cm r P = Inr c" and i: "i < length c" and x: "\<not> base64_character x"
  shows "\<exists>e. decrypt_try cm (JStr (c[i := x])) = Inl e"
proof -
  from enc obtain data where d: "utf8_encode P = Some data"
    by (auto simp: encrypt_def split: option.splits)
  define X where "X = urlsafe_b64encode (Fernet_encrypt (cipher cm) r data)"
  have c: "c = map unat X" using enc by (simp add: encrypt_ok [OF d] X_def)
  have lX: "i < length X" using i by (simp add: c)
  have asc: "\<forall>b\<in>set X. unat b < 128" by (simp add: X_def urlsafe_lt128)
  have upd: "c[i := x] = map unat (take i X) @ [x] @ map unat (drop (Suc i) X)"
    using lX by (simp add: c upd_conv_take_nth_drop take_map drop_map)
  have e1: "utf8_encode (map unat (take i X)) = Some (take i X)"
    by (rule utf8_encode_ascii) (use asc in \<open>auto dest: in_set_takeD\<close>)
  have e2: "utf8_encode (map unat (drop (Suc i) X)) = Some (drop (Suc i) X)"
    by (rule utf8_encode_ascii) (use asc in \<open>auto dest: in_set_dropD\<close>)
  show ?thesis
  proof (cases "utf8_char x")
    case None
    then have "utf8_encode (c[i := x]) = None"
      by (simp add: upd utf8_encode_append e1)
    then show ?thesis by (simp add: decrypt_try_def)
  next
    case (Some js)
    have "utf8_encode (c[i := x]) = Some (take i X @ js @ drop (Suc i) X)"
      by (simp add: upd utf8_encode_append e1 e2 Some)
    moreover have "urlsafe_b64decode (take i X @ js @ drop (Suc i) X) = None"
      by (rule decode_replaced [OF lX X_def utf8_char_outside [OF Some x]])
    ultimately show ?thesis by (simp add: decrypt_try_def)
  qed
qed

lemma demo_encrypt_hi: "encrypt demo_crypto (drawn demo_env) (lit ''hi'') = Inr demo_ciphertext"
proof -
  have u: "utf8_encode (lit ''hi'') = Some (map byte_of (lit ''hi''))"
    by (rule utf8_encode_lit_ascii) (simp add: lit_def)
  show ?thesis by (simp add: demo_ciphertext_def encrypt_ok [OF u])
qed

lemma demo_ciphertext_length: "length demo_ciphertext = 136"
  by code_simp

lemma decrypt_try_frame:
  "decrypt_try cm (JStr s) = Inr t \<Longrightarrow>
     \<exists>f d. frame_of s = Some f \<and> unseal (cipher cm) f = Some d \<and> utf8_decode d = Some t"
  by (auto simp: decrypt_try_def frame_of_def Fernet_decrypt_def split: option.splits)

lemma decrypt_cases:
  "decrypt cm m = (lit ''[DECRYPTION FAILED]'', [Log_error ''Decryption failed''])
   \<or> (\<exists>t. decrypt_try cm m = Inr t \<and> decrypt cm m = (t, []))"
  by (cases "decrypt_try cm m") (simp_all add: decrypt_def)

lemma lone_encrypt_hi: "encrypt lone_crypto (drawn demo_env) (lit ''hi'') = Inr demo_ciphertext"
proof -
  have "encrypt lone_crypto (drawn demo_env) (lit ''hi'')
        = encrypt demo_crypto (drawn demo_env) (lit ''hi'')"
    by (simp add: encrypt_def Fernet_encrypt_def lone_crypto_def lone_fernet_def
          demo_crypto_def demo_fernet_def split: option.split)
  then show ?thesis by (simp add: demo_encrypt_hi)
qed

text \<open>
  C7, as the code has it. Take a ciphertext returned by \<open>encrypt\<close>, for a cipher that
  opens the frame it built and authenticates it (\<open>authenticates\<close>: the guarantee of the
  library's HMAC check, which the code relies on and which cannot be derived from it),
  and change any one of its characters. Then \<open>decrypt\<close> either logs the failure and
  returns the sentinel text, or returns the original plaintext: it never returns another
  plaintext. When the new character is one that base64 decoding does not read, the
  failure is always reported, whatever the cipher.
\<close>

theorem tampering_detected_or_harmless:
  assumes "utf8_encode P = Some data" and "encrypt cm r P = Inr c" and "i < length c"
    and "unseal (cipher cm) (seal (cipher cm) r data) = Some data"
    and "authenticates (cipher cm) c (seal (cipher cm) r data)"
  shows "(decrypt cm (JStr (c[i := x]))
            = (lit ''[DECRYPTION FAILED]'', [Log_error ''Decryption failed''])
          \<or> decrypt cm (JStr (c[i := x])) = (P, []))
         \<and> (\<not> base64_character x \<longrightarrow>
              decrypt cm (JStr (c[i := x]))
                = (lit ''[DECRYPTION FAILED]'', [Log_error ''Decryption failed'']))"
proof (intro conjI impI)
  show "decrypt cm (JStr (c[i := x]))
            = (lit ''[DECRYPTION FAILED]'', [Log_error ''Decryption failed''])
          \<or> decrypt cm (JStr (c[i := x])) = (P, [])"
  proof (rule disjE [OF decrypt_cases [of cm "JStr (c[i := x])"]])
    assume "decrypt cm (JStr (c[i := x]))
            = (lit ''[DECRYPTION FAILED]'', [Log_error ''Decryption failed''])"
    then show ?thesis by simp
  next
    assume "\<exists>t. decrypt_try cm (JStr (c[i := x])) = Inr t \<and> decrypt cm (JStr (c[i := x])) = (t, [])"
    then obtain t where t: "decrypt_try cm (JStr (c[i := x])) = Inr t"
      "decrypt cm (JStr (c[i := x])) = (t, [])" by blast
    from decrypt_try_frame [OF t(1)] obtain f d where
      f: "frame_of (c[i := x]) = Some f" "unseal (cipher cm) f = Some d" "utf8_decode d = Some t"
      by blast
    have "f = seal (cipher cm) r data"
    proof (rule ccontr)
      assume "f \<noteq> seal (cipher cm) r data"
      with assms(5) assms(3) f(1) have "unseal (cipher cm) f = None"
        unfolding authenticates_def by blast
      with f(2) show False by simp
    qed
    with f(2) assms(4) have "d = data" by simp
    with f(3) utf8_roundtrip [OF assms(1)] have "t = P" by simp
    with t(2) show ?thesis by simp
  qed
next
  assume "\<not> base64_character x"
  from decrypt_try_replaced [OF assms(2) assms(3) this] obtain e where
    "decrypt_try cm (JStr (c[i := x])) = Inl e" ..
  then show "decrypt cm (JStr (c[i := x]))
                = (lit ''[DECRYPTION FAILED]'', [Log_error ''Decryption failed''])"
    by (simp add: decrypt_def)
qed

theorem tampering_detected_or_harmless_witness:
  "utf8_encode (lit ''hi'') = Some [104, 105]
   \<and> encrypt lone_crypto (drawn demo_env) (lit ''hi'') = Inr demo_ciphertext
   \<and> 134 < length demo_ciphertext
   \<and> unseal (cipher lone_crypto) (seal (cipher lone_crypto) (drawn demo_env) [104, 105])
       = Some [104, 105]
   \<and> authenticates (cipher lone_crypto) demo_ciphertext
        (seal (cipher lone_crypto) (drawn demo_env) [104, 105])
   \<and> (decrypt lone_crypto (JStr (demo_ciphertext[134 := 65]))
         = (lit ''[DECRYPTION FAILED]'', [Log_error ''Decryption failed''])
       \<or> decrypt lone_crypto (JStr (demo_ciphertext[134 := 65])) = (lit ''hi'', []))
   \<and> \<not> base64_character 35
   \<and> decrypt lone_crypto (JStr (demo_ciphertext[134 := 35]))
       = (lit ''[DECRYPTION FAILED]'', [Log_error ''Decryption failed''])"
proof -
  have h1: "utf8_encode (lit ''hi'') = Some [104, 105]"
    by (simp add: lit_def utf8_char_def byte_of_def)
  have h3: "134 < length demo_ciphertext" by (simp add: demo_ciphertext_length)
  have h4: "unseal (cipher lone_crypto) (seal (cipher lone_crypto) (drawn demo_env) [104, 105])
       = Some [104, 105]"
    by (simp add: lone_crypto_def lone_fernet_def)
  have h5: "authenticates (cipher lone_crypto) demo_ciphertext
        (seal (cipher lone_crypto) (drawn demo_env) [104, 105])"
    by (simp add: authenticates_def lone_crypto_def lone_fernet_def)
  have h6: "\<not> base64_character 35" by (simp add: base64_character_def)
  show ?thesis
    using h1 lone_encrypt_hi h3 h4 h5 h6
      tampering_detected_or_harmless [OF h1 lone_encrypt_hi h3 h4 h5, of 65]
      tampering_detected_or_harmless [OF h1 lone_encrypt_hi h3 h4 h5, of 35]
    by blast
qed

text \<open>
  The claim as written, that every changed byte is reported, fails. The ciphertext of \<open>hi\<close> has 136
  characters and ends in \<open>==\<close>; replacing the first pad, at index 134, by \<open>A\<close> gives a
  different text that decodes to the same token followed by a zero byte, which the
  decoding inside \<open>Fernet.decrypt\<close> ignores: \<open>decrypt\<close> returns \<open>hi\<close> and reports
  nothing.
\<close>

theorem padding_change_undetected:
  "encrypt demo_crypto (drawn demo_env) (lit ''hi'') = Inr demo_ciphertext
   \<and> demo_ciphertext ! 134 = 61
   \<and> demo_ciphertext[134 := 65] \<noteq> demo_ciphertext
   \<and> decrypt demo_crypto (JStr (demo_ciphertext[134 := 65])) = (lit ''hi'', [])"
proof -
  have 1: "demo_ciphertext ! 134 = 61" by code_simp
  have 2: "decrypt demo_crypto (JStr (demo_ciphertext[134 := 65])) = (lit ''hi'', [])"
    by code_simp
  have 3: "demo_ciphertext[134 := 65] \<noteq> demo_ciphertext"
  proof
    assume "demo_ciphertext[134 := 65] = demo_ciphertext"
    then have "demo_ciphertext[134 := 65] ! 134 = demo_ciphertext ! 134" by simp
    then show False using 1 by (simp add: demo_ciphertext_length)
  qed
  from demo_encrypt_hi 1 2 3 show ?thesis by simp
qed

section \<open>Packets of an unknown type\<close>

text \<open>
  C9. A packet (a JSON object) whose \<open>type\<close> is none of \<open>text\<close>, \<open>call\<close>, \<open>audio\<close>,
  \<open>link\<close> (a missing \<open>type\<close> reads as \<open>None\<close>) is handled without raising, leaves every
  field of the node as it was and causes no effect: no callback is called.
\<close>

theorem unknown_type_ignored:
  assumes "get d (lit ''type'') \<notin>
             {JStr (lit ''text''), JStr (lit ''call''), JStr (lit ''audio''), JStr (lit ''link'')}"
  shows "handle_packet n (JObj d) = Inr (n, [])"
  using assms by (simp add: handle_packet_def Let_def)

theorem unknown_type_ignored_witness:
  "get [(lit ''sender'', JStr (lit ''alice''))] (lit ''type'') \<notin>
     {JStr (lit ''text''), JStr (lit ''call''), JStr (lit ''audio''), JStr (lit ''link'')}
   \<and> handle_packet bob (JObj [(lit ''sender'', JStr (lit ''alice''))]) = Inr (bob, [])"
proof -
  have h: "get [(lit ''sender'', JStr (lit ''alice''))] (lit ''type'') \<notin>
     {JStr (lit ''text''), JStr (lit ''call''), JStr (lit ''audio''), JStr (lit ''link'')}"
    by (simp add: get_def lit_def)
  show ?thesis using h unknown_type_ignored [OF h, of bob] by simp
qed

end
